theory Spec2Isabelle
  imports Complex_Main "HOL-Library.Char_ord" "HOL-Library.List_Lexorder"
begin

section \<open>Smart Traffic Management System: lane classification and signal timing\<close>

text \<open>
  The Python sources are \<^verbatim>\<open>app.py\<close> (the Flask handlers and the pipeline),
  \<^verbatim>\<open>utils.py\<close> (\<^verbatim>\<open>LaneDetector\<close>, \<^verbatim>\<open>SignalController\<close>) and \<^verbatim>\<open>config.py\<close>
  (\<^verbatim>\<open>Config\<close>). Python integers are \<open>int\<close>, Python floats that are only compared
  are \<open>real\<close>, strings are \<open>string\<close>, a value that arrives as JSON is a \<open>json\<close>, and a
  raised exception is the \<open>Inl\<close> side of a sum.
\<close>

subsection \<open>Exceptions and dictionaries\<close>

datatype exn =
  ValueError            \<comment> \<open>\<^verbatim>\<open>max()\<close> of an empty sequence\<close>
| ZeroDivisionError     \<comment> \<open>\<^verbatim>\<open>//\<close> or \<^verbatim>\<open>/\<close> by zero\<close>
| UnboundLocalError     \<comment> \<open>a local variable read before its first assignment\<close>
| TypeError             \<comment> \<open>\<^verbatim>\<open>>\<close> between values that Python does not order\<close>
| AttributeError        \<comment> \<open>\<^verbatim>\<open>.get\<close> on a body that is not a JSON object\<close>
| OSError               \<comment> \<open>a failing file operation\<close>
| CouldNotOpen          \<comment> \<open>\<^verbatim>\<open>Exception("Could not open video file")\<close>\<close>
| ModelLoadError        \<comment> \<open>whatever \<^verbatim>\<open>YOLO('yolov8n.pt')\<close> raises\<close>
| DetectorError         \<comment> \<open>whatever \<^verbatim>\<open>model(frame)\<close> raises\<close>

text \<open>
  A Python \<^verbatim>\<open>dict\<close> keeps its keys in insertion order, and \<^verbatim>\<open>max\<close> over a dict
  depends on that order, so a dict is an association list. A list that stands for a dict
  has distinct keys (\<open>distinct (map fst d)\<close>).
\<close>

type_synonym 'v dict = "(string \<times> 'v) list"

definition keys :: "'v dict \<Rightarrow> string list" where
  "keys d = map fst d"

definition dict_values :: "'v dict \<Rightarrow> 'v list" where
  "dict_values d = map snd d"

text \<open>\<^verbatim>\<open>d.get(k)\<close>: \<open>None\<close> when the key is missing.\<close>

definition dict_get :: "'v dict \<Rightarrow> string \<Rightarrow> 'v option" where
  "dict_get d k = map_of d k"

text \<open>\<^verbatim>\<open>d[k] = v\<close>: an existing key keeps its position, a new key goes last.\<close>

fun dict_set :: "'v dict \<Rightarrow> string \<Rightarrow> 'v \<Rightarrow> 'v dict" where
  "dict_set [] k v = [(k, v)]"
| "dict_set ((k', v') # d) k v = (if k' = k then (k, v) # d else (k', v') # dict_set d k v)"

text \<open>\<^verbatim>\<open>d.update(other)\<close>: every item of \<open>other\<close> is stored into \<open>d\<close>, in order.\<close>

definition dict_update :: "'v dict \<Rightarrow> 'v dict \<Rightarrow> 'v dict" where
  "dict_update d other = fold (\<lambda>(k, v) acc. dict_set acc k v) other d"

text \<open>
  Python's \<^verbatim>\<open>max(iterable, key=f)\<close>: the running maximum is replaced only by a strictly
  greater element, so the first maximal element wins; an empty iterable raises
  \<^verbatim>\<open>ValueError\<close>. Without \<^verbatim>\<open>key\<close> the key function is the identity.
\<close>

fun max_first :: "('a \<Rightarrow> int) \<Rightarrow> 'a \<Rightarrow> 'a list \<Rightarrow> 'a" where
  "max_first f best [] = best"
| "max_first f best (x # xs) = max_first f (if f x > f best then x else best) xs"

definition py_max :: "('a \<Rightarrow> int) \<Rightarrow> 'a list \<Rightarrow> exn + 'a" where
  "py_max f xs = (case xs of [] \<Rightarrow> Inl ValueError | x # rest \<Rightarrow> Inr (max_first f x rest))"

text \<open>
  \<^verbatim>\<open>vehicle_counts.get\<close> as the key function of \<^verbatim>\<open>max\<close>. It is only applied to keys
  of \<open>vehicle_counts\<close>, where it returns the stored count.
\<close>

definition count_of :: "int dict \<Rightarrow> string \<Rightarrow> int" where
  "count_of vehicle_counts k = the (dict_get vehicle_counts k)"

subsection \<open>config.py\<close>

definition LANE_COUNT :: int where
  "LANE_COUNT = 4"

definition BASE_GREEN_TIME :: int where
  "BASE_GREEN_TIME = 15"

definition MAX_GREEN_TIME :: int where
  "MAX_GREEN_TIME = 30"

text \<open>\<^verbatim>\<open>DENSITY_THRESHOLDS\<close>: low 5, medium 10, high 15.\<close>

definition get_signal_timing :: "int \<Rightarrow> int" where
  "get_signal_timing vehicle_count =
     (if vehicle_count \<le> 5 then BASE_GREEN_TIME
      else if vehicle_count \<le> 10 then 20
      else if vehicle_count \<le> 15 then 25
      else MAX_GREEN_TIME)"

definition get_lane_from_coordinates :: "real \<Rightarrow> int \<Rightarrow> string" where
  "get_lane_from_coordinates x frame_width =
     (let lane_width = frame_width div LANE_COUNT in
      if x < real_of_int lane_width then ''A''
      else if x < real_of_int (lane_width * 2) then ''B''
      else if x < real_of_int (lane_width * 3) then ''C''
      else ''D'')"

subsection \<open>utils.py: LaneDetector\<close>

text \<open>
  \<^verbatim>\<open>frame_width // num_lanes\<close> is Python's floor division, which is \<open>div\<close> on \<open>int\<close>;
  a zero divisor raises \<^verbatim>\<open>ZeroDivisionError\<close>.
\<close>

definition determine_lane :: "real \<Rightarrow> int \<Rightarrow> int \<Rightarrow> exn + string" where
  "determine_lane x_coord frame_width num_lanes =
     (if num_lanes = 0 then Inl ZeroDivisionError
      else
        let lane_width = frame_width div num_lanes in
        if x_coord < real_of_int lane_width then Inr ''A''
        else if x_coord < real_of_int (lane_width * 2) then Inr ''B''
        else if x_coord < real_of_int (lane_width * 3) then Inr ''C''
        else Inr ''D'')"

text \<open>The default argument \<^verbatim>\<open>num_lanes=4\<close>.\<close>

definition determine_lane4 :: "real \<Rightarrow> int \<Rightarrow> exn + string" where
  "determine_lane4 x_coord frame_width = determine_lane x_coord frame_width 4"

subsection \<open>Signal timing (app.py and utils.py)\<close>

text \<open>
  One lane's entry of a signal state: the dict
  \<^verbatim>\<open>{'count': .., 'signal': .., 'time': .., 'priority': ..}\<close>; the \<^verbatim>\<open>priority\<close> key is
  written by \<^verbatim>\<open>utils.py\<close> only. The type of the count is a parameter: the timing
  functions below are given integer counts, the process-wide state of \<^verbatim>\<open>app.py\<close> holds
  whatever value a request has stored.
\<close>

record 'c lane_data =
  count :: 'c
  signal :: string
  time :: int
  priority :: "string option"

text \<open>
  \<^verbatim>\<open>calculate_signal_timing\<close> of \<^verbatim>\<open>app.py\<close>. The loop over
  \<^verbatim>\<open>vehicle_counts.items()\<close> stores one entry per key into a fresh dict, in the order of
  the keys.
\<close>

definition calculate_signal_timing :: "int dict \<Rightarrow> exn + int lane_data dict" where
  "calculate_signal_timing vehicle_counts =
     (case py_max id (dict_values vehicle_counts) of
        Inl e \<Rightarrow> Inl e
      | Inr max_count \<Rightarrow>
     (case py_max (count_of vehicle_counts) (keys vehicle_counts) of
        Inl e \<Rightarrow> Inl e
      | Inr max_lane \<Rightarrow>
          let base_green_time = 15;
              max_green_time = 30;
              green_time =
                (if max_count > 15 then max_green_time
                 else if max_count > 10 then 25
                 else if max_count > 5 then 20
                 else base_green_time)
          in Inr (fold (\<lambda>(lane, cnt) signals.
                     if lane = max_lane
                     then dict_set signals lane
                            \<lparr>count = cnt, signal = ''Green'', time = green_time, priority = None\<rparr>
                     else dict_set signals lane
                            \<lparr>count = cnt, signal = ''Red'', time = base_green_time, priority = None\<rparr>)
                   vehicle_counts [])))"

text \<open>\<^verbatim>\<open>SignalController.calculate_adaptive_timing\<close> of \<^verbatim>\<open>utils.py\<close>.\<close>

definition calculate_adaptive_timing :: "int dict \<Rightarrow> exn + int lane_data dict" where
  "calculate_adaptive_timing vehicle_counts =
     (case py_max (count_of vehicle_counts) (keys vehicle_counts) of
        Inl e \<Rightarrow> Inl e
      | Inr max_lane \<Rightarrow>
          let max_count = count_of vehicle_counts max_lane;
              green_time =
                (if max_count > 15 then 30
                 else if max_count > 10 then 25
                 else if max_count > 5 then 20
                 else 15)
          in Inr (fold (\<lambda>(lane, cnt) signals.
                     if lane = max_lane
                     then dict_set signals lane
                            \<lparr>count = cnt, signal = ''Green'', time = green_time, priority = Some ''High''\<rparr>
                     else dict_set signals lane
                            \<lparr>count = cnt, signal = ''Red'', time = 15, priority = Some ''Low''\<rparr>)
                   vehicle_counts []))"

text \<open>\<^verbatim>\<open>SignalController.calculate_cycle_time\<close>: the running sum of the \<^verbatim>\<open>time\<close> fields.\<close>

definition calculate_cycle_time :: "'c lane_data dict \<Rightarrow> int" where
  "calculate_cycle_time signals =
     fold (\<lambda>lane_data total_time. total_time + time lane_data) (dict_values signals) 0"


text \<open>
  Two observations on a signal state, used to state the properties below: the lanes whose
  entry is Green, in dict order, and the closed form that both timing functions compute
  on a dict with distinct keys (lane \<open>g\<close> Green for \<open>green_time\<close> seconds, every other
  lane Red for 15).
\<close>

definition green_lanes :: "'c lane_data dict \<Rightarrow> string list" where
  "green_lanes signals = map fst (filter (\<lambda>(lane, d). signal d = ''Green'') signals)"

definition assignment :: "string \<Rightarrow> int \<Rightarrow> (bool \<Rightarrow> string option) \<Rightarrow> 'c dict \<Rightarrow> 'c lane_data dict" where
  "assignment g green_time prio vc =
     map (\<lambda>(lane, cnt). (lane,
            \<lparr>count = cnt, signal = (if lane = g then ''Green'' else ''Red''),
             time = (if lane = g then green_time else 15),
             priority = prio (lane = g)\<rparr>)) vc"

text \<open>
  What the timing claim asks of a result \<open>signals\<close> for the counts \<open>vc\<close>, with \<open>g\<close> the
  Green lane: the same lanes in the same order, \<open>g\<close> the only Green lane, every entry
  carrying its lane's count, the Green duration given by the step table
  (\<^verbatim>\<open>Config.get_signal_timing\<close>), the others Red for 15 seconds, and the cycle time.
\<close>

definition single_green :: "int dict \<Rightarrow> int lane_data dict \<Rightarrow> string \<Rightarrow> bool" where
  "single_green vc signals g \<longleftrightarrow>
     keys signals = keys vc \<and>
     green_lanes signals = [g] \<and>
     list_all (\<lambda>(lane, d). count d = count_of vc lane \<and>
                 (if lane = g
                  then signal d = ''Green'' \<and> time d = get_signal_timing (count d)
                  else signal d = ''Red'' \<and> time d = 15)) signals \<and>
     calculate_cycle_time signals
       = get_signal_timing (count_of vc g) + 15 * (int (length signals) - 1)"


subsection \<open>Values that arrive as JSON\<close>

text \<open>
  \<^verbatim>\<open>simulate_traffic\<close> stores the \<^verbatim>\<open>count\<close> of the request body as it comes from
  \<^verbatim>\<open>request.get_json()\<close>: \<^verbatim>\<open>None\<close>, a bool, an int, a float, a string, a list or a
  dict. A JSON object is a Python dict, so its keys are distinct. A float is its real
  value; the non-finite floats that Python's parser also accepts are not modelled.
\<close>

datatype json =
  JNull
| JBool bool
| JInt int
| JFloat real
| JStr string
| JArray "json list"
| JObject "(string \<times> json) list"

text \<open>The numeric value of the values Python orders as numbers; a bool is the int 0 or 1.\<close>

fun number :: "json \<Rightarrow> real option" where
  "number (JBool b) = Some (if b then 1 else 0)"
| "number (JInt i) = Some (real_of_int i)"
| "number (JFloat r) = Some r"
| "number JNull = None"
| "number (JStr s) = None"
| "number (JArray xs) = None"
| "number (JObject d) = None"

text \<open>
  Python's \<^verbatim>\<open>==\<close>: numbers by value, strings and \<^verbatim>\<open>None\<close> by identity of content, lists
  element by element, dicts key by key whatever their order; values of different kinds are
  unequal. It never raises on these values.
\<close>

function py_eq :: "json \<Rightarrow> json \<Rightarrow> bool" where
  "py_eq a b =
     (case (number a, number b) of
        (Some x, Some y) \<Rightarrow> x = y
      | (Some x, None) \<Rightarrow> False
      | (None, Some y) \<Rightarrow> False
      | (None, None) \<Rightarrow>
          (case (a, b) of
             (JNull, JNull) \<Rightarrow> True
           | (JStr s, JStr t) \<Rightarrow> s = t
           | (JArray xs, JArray ys) \<Rightarrow>
               length xs = length ys \<and> list_all (\<lambda>(x, y). py_eq x y) (zip xs ys)
           | (JObject d, JObject e) \<Rightarrow>
               length d = length e \<and>
               list_all (\<lambda>(k, v). case map_of e k of None \<Rightarrow> False | Some w \<Rightarrow> py_eq v w) d
           | _ \<Rightarrow> False))"
  by pat_completeness auto
termination
  apply (relation "measure (\<lambda>(a, b). size a)")
    apply simp
   apply (auto dest!: set_zip_leftD simp: less_Suc_eq_le size_list_estimation')
  done

declare py_eq.simps [simp del]

text \<open>
  Python's \<^verbatim>\<open>>\<close>: numbers by value, strings by code points, lists by their first
  unequal elements and then by length; every other pair of values, \<^verbatim>\<open>None\<close> and dicts
  included, raises \<^verbatim>\<open>TypeError\<close>.
\<close>

function py_gt :: "json \<Rightarrow> json \<Rightarrow> exn + bool" where
  "py_gt a b =
     (case (number a, number b) of
        (Some x, Some y) \<Rightarrow> Inr (x > y)
      | (Some x, None) \<Rightarrow> Inl TypeError
      | (None, Some y) \<Rightarrow> Inl TypeError
      | (None, None) \<Rightarrow>
          (case (a, b) of
             (JStr s, JStr t) \<Rightarrow> Inr (s > t)
           | (JArray xs, JArray ys) \<Rightarrow>
               (case dropWhile (\<lambda>(x, y). py_eq x y) (zip xs ys) of
                  [] \<Rightarrow> Inr (length xs > length ys)
                | (x, y) # _ \<Rightarrow> py_gt x y)
           | _ \<Rightarrow> Inl TypeError))"
  by pat_completeness auto
termination
  apply (relation "measure (\<lambda>(a, b). size a)")
   apply simp
  apply (auto simp: less_Suc_eq_le)
  subgoal for xs ys a b rest
  proof -
    assume d: "dropWhile (\<lambda>(x, y). py_eq x y) (zip xs ys) = (a, b) # rest"
    have "(a, b) \<in> set (dropWhile (\<lambda>(x, y). py_eq x y) (zip xs ys))"
      unfolding d by simp
    then have "(a, b) \<in> set (zip xs ys)" by (rule set_dropWhileD)
    then have "a \<in> set xs" by (rule set_zip_leftD)
    then show "size a \<le> size_list size xs" by (simp add: size_list_estimation')
  qed
  done

declare py_gt.simps [simp del]

text \<open>\<^verbatim>\<open>max\<close> with Python's \<^verbatim>\<open>>\<close> on such values: a comparison may raise.\<close>

fun max_first_json :: "('a \<Rightarrow> json) \<Rightarrow> 'a \<Rightarrow> 'a list \<Rightarrow> exn + 'a" where
  "max_first_json f best [] = Inr best"
| "max_first_json f best (x # xs) =
     (case py_gt (f x) (f best) of
        Inl e \<Rightarrow> Inl e
      | Inr is_greater \<Rightarrow> max_first_json f (if is_greater then x else best) xs)"

definition py_max_json :: "('a \<Rightarrow> json) \<Rightarrow> 'a list \<Rightarrow> exn + 'a" where
  "py_max_json f xs =
     (case xs of [] \<Rightarrow> Inl ValueError | x # rest \<Rightarrow> max_first_json f x rest)"

text \<open>\<^verbatim>\<open>vehicle_counts.get\<close> on a key of the dict, for counts of any kind.\<close>

definition value_of :: "'v dict \<Rightarrow> string \<Rightarrow> 'v" where
  "value_of d k = the (dict_get d k)"

text \<open>
  \<^verbatim>\<open>calculate_signal_timing\<close> of \<^verbatim>\<open>app.py\<close> as it runs on counts of any kind: the same
  statements as above, with every \<^verbatim>\<open>>\<close> the comparison of Python values. On integer
  counts it is \<open>calculate_signal_timing\<close> (lemma \<open>timing_json_on_ints\<close>).
\<close>

definition green_time_json :: "json \<Rightarrow> exn + int" where
  "green_time_json max_count =
     (let base_green_time = 15;
          max_green_time = 30
      in case py_gt max_count (JInt 15) of
           Inl e \<Rightarrow> Inl e
         | Inr above15 \<Rightarrow>
             if above15 then Inr max_green_time
             else (case py_gt max_count (JInt 10) of
                     Inl e \<Rightarrow> Inl e
                   | Inr above10 \<Rightarrow>
                       if above10 then Inr 25
                       else (case py_gt max_count (JInt 5) of
                               Inl e \<Rightarrow> Inl e
                             | Inr above5 \<Rightarrow>
                                 if above5 then Inr 20 else Inr base_green_time)))"

definition calculate_signal_timing_json :: "json dict \<Rightarrow> exn + json lane_data dict" where
  "calculate_signal_timing_json vehicle_counts =
     (case py_max_json id (dict_values vehicle_counts) of
        Inl e \<Rightarrow> Inl e
      | Inr max_count \<Rightarrow>
     (case py_max_json (value_of vehicle_counts) (keys vehicle_counts) of
        Inl e \<Rightarrow> Inl e
      | Inr max_lane \<Rightarrow>
     (case green_time_json max_count of
        Inl e \<Rightarrow> Inl e
      | Inr green_time \<Rightarrow>
          Inr (fold (\<lambda>(lane, cnt) signals.
                     if lane = max_lane
                     then dict_set signals lane
                            \<lparr>count = cnt, signal = ''Green'', time = green_time, priority = None\<rparr>
                     else dict_set signals lane
                            \<lparr>count = cnt, signal = ''Red'', time = 15, priority = None\<rparr>)
                   vehicle_counts []))))"

text \<open>
  Integer counts and integer-count signal states as Python values, and the integer
  counts of \<open>vc\<close> as the counts a state holds.
\<close>

definition int_counts :: "int dict \<Rightarrow> json dict" where
  "int_counts vc = map (\<lambda>(lane, c). (lane, JInt c)) vc"

definition stored :: "int lane_data \<Rightarrow> json lane_data" where
  "stored d = \<lparr>count = JInt (count d), signal = signal d, time = time d, priority = priority d\<rparr>"

definition stored_signals :: "int lane_data dict \<Rightarrow> json lane_data dict" where
  "stored_signals signals = map (\<lambda>(lane, d). (lane, stored d)) signals"

subsection \<open>app.py: the process-wide state\<close>

text \<open>
  The module-level globals \<^verbatim>\<open>current_video_data\<close> and \<^verbatim>\<open>processing_status\<close>, and the
  paths that exist on disk. The counts in \<^verbatim>\<open>current_video_data\<close> are Python values: a job
  publishes integers, \<^verbatim>\<open>simulate_traffic\<close> stores what the request carries. A handler is
  a function from the state it finds to its response and the state it leaves.
\<close>

record status_data =
  status :: string
  progress :: int

record app_state =
  current_video_data :: "json lane_data dict"
  processing_status :: status_data
  files :: "string set"

definition initial_video_data :: "json lane_data dict" where
  "initial_video_data =
     [(''laneA'', \<lparr>count = JInt 0, signal = ''Red'', time = 15, priority = None\<rparr>),
      (''laneB'', \<lparr>count = JInt 0, signal = ''Red'', time = 15, priority = None\<rparr>),
      (''laneC'', \<lparr>count = JInt 0, signal = ''Red'', time = 15, priority = None\<rparr>),
      (''laneD'', \<lparr>count = JInt 0, signal = ''Red'', time = 15, priority = None\<rparr>)]"

definition initial_state :: app_state where
  "initial_state =
     \<lparr>current_video_data = initial_video_data,
      processing_status = \<lparr>status = ''idle'', progress = 0\<rparr>,
      files = {}\<rparr>"

text \<open>
  \<^verbatim>\<open>allowed_file\<close>: \<^verbatim>\<open>'.' in filename and filename.rsplit('.', 1)[1].lower() in
  ALLOWED_EXTENSIONS\<close>. \<^verbatim>\<open>lower\<close> is modelled on ASCII letters.
\<close>

definition ALLOWED_EXTENSIONS :: "string list" where
  "ALLOWED_EXTENSIONS = [''mp4'', ''avi'', ''mov'', ''mkv'']"

definition lower_char :: "char \<Rightarrow> char" where
  "lower_char c =
     (if CHR ''A'' \<le> c \<and> c \<le> CHR ''Z'' then char_of (of_char c + (32::nat)) else c)"

definition lower :: "string \<Rightarrow> string" where
  "lower s = map lower_char s"

definition after_last_dot :: "string \<Rightarrow> string" where
  "after_last_dot filename = rev (takeWhile (\<lambda>c. c \<noteq> CHR ''.'') (rev filename))"

definition allowed_file :: "string \<Rightarrow> bool" where
  "allowed_file filename \<longleftrightarrow>
     CHR ''.'' \<in> set filename \<and> lower (after_last_dot filename) \<in> set ALLOWED_EXTENSIONS"

subsection \<open>app.py: the video pipeline\<close>

text \<open>
  What the external collaborators deliver for one uploaded video: whether the detector
  model loads, whether \<^verbatim>\<open>cv2.VideoCapture\<close> opens the file, the frame count it reports,
  and the frames it yields, each with its width (\<^verbatim>\<open>frame.shape[1]\<close>), whether the
  detector raises on it, and the boxes the detector returns for it (class, confidence and
  left edge \<^verbatim>\<open>x1\<close>; the other coordinates are only drawn). The progress
  \<^verbatim>\<open>int((frame_count / total_frames) * 100)\<close> is computed in double precision, which is
  not modelled: each frame carries the value that expression has when the frame is
  processed (\<open>progress_value\<close>, for a frame count other than 0).
\<close>

record box =
  cls :: int
  conf :: real
  x1 :: real

record frame =
  width :: int
  progress_value :: int
  detector_raises :: bool
  boxes :: "box list"

record video_source =
  model_loads :: bool
  opens :: bool
  total_frames :: int
  frames :: "frame list"

text \<open>The result dict of a processing function: \<^verbatim>\<open>'success': True\<close> or \<^verbatim>\<open>False\<close>.\<close>

datatype pipeline_result =
  Success "int dict" "int lane_data dict" int string
    \<comment> \<open>\<^verbatim>\<open>vehicle_counts\<close>, \<^verbatim>\<open>signals\<close>, \<^verbatim>\<open>processed_frames\<close>, \<^verbatim>\<open>message\<close>\<close>
| Failure exn string
    \<comment> \<open>\<^verbatim>\<open>error\<close>, \<^verbatim>\<open>message\<close>\<close>

fun success :: "pipeline_result \<Rightarrow> bool" where
  "success (Success _ _ _ _) = True"
| "success (Failure _ _) = False"

fun result_signals :: "pipeline_result \<Rightarrow> int lane_data dict" where
  "result_signals (Success _ signals _ _) = signals"
| "result_signals (Failure _ _) = []"

text \<open>\<^verbatim>\<open>vehicle_counts[lane] += 1\<close> on a dict that holds the lane.\<close>

definition increment :: "int dict \<Rightarrow> string \<Rightarrow> int dict" where
  "increment vehicle_counts lane = dict_set vehicle_counts lane (count_of vehicle_counts lane + 1)"

text \<open>
  The locals of the frame loop of \<^verbatim>\<open>process_video_yolo\<close>. \<^verbatim>\<open>frame_width\<close> is assigned
  only when a box passes the vehicle filter, and it is read after the boxes of every frame
  to draw the lane dividers: until its first assignment that read raises
  \<^verbatim>\<open>UnboundLocalError\<close>, afterwards it keeps the value of the last assignment.
\<close>

record loop_state =
  frame_count :: int
  vehicle_counts :: "int dict"
  frame_width_local :: "int option"
  progress_global :: int

definition count_box :: "frame \<Rightarrow> box \<Rightarrow> loop_state \<Rightarrow> loop_state" where
  "count_box fr b st =
     (if cls b \<in> set [2, 3, 5, 7] \<and> conf b > 0.5 then
        let fw = width fr;
            lane_width = fw div 4;
            vc = vehicle_counts st;
            vc' =
              (if x1 b < real_of_int lane_width then increment vc ''laneA''
               else if x1 b < real_of_int (lane_width * 2) then increment vc ''laneB''
               else if x1 b < real_of_int (lane_width * 3) then increment vc ''laneC''
               else increment vc ''laneD'')
        in st\<lparr>vehicle_counts := vc', frame_width_local := Some fw\<rparr>
      else st)"

text \<open>
  The \<^verbatim>\<open>while True\<close> loop over the frames that \<^verbatim>\<open>cap.read()\<close> yields. The result is the
  loop state at the end, or at the statement that raised together with the exception. The
  division \<^verbatim>\<open>frame_count / total_frames\<close> raises when the frame count is 0.
\<close>

fun process_frames :: "int \<Rightarrow> frame list \<Rightarrow> loop_state \<Rightarrow> exn option \<times> loop_state" where
  "process_frames total_count [] st = (None, st)"
| "process_frames total_count (fr # rest) st =
     (let st1 = st\<lparr>frame_count := frame_count st + 1\<rparr> in
      if total_count = 0 then (Some ZeroDivisionError, st1)
      else
        let st2 = st1\<lparr>progress_global := progress_value fr\<rparr> in
        if detector_raises fr then (Some DetectorError, st2)
        else
          let st3 = fold (count_box fr) (boxes fr) st2
          in case frame_width_local st3 of
               None \<Rightarrow> (Some UnboundLocalError, st3)
             | Some fw \<Rightarrow> process_frames total_count rest st3)"

text \<open>The ten steps \<^verbatim>\<open>for i in range(10): processing_status['progress'] = (i + 1) * 10\<close>.\<close>

definition dummy_progress :: "int \<Rightarrow> int" where
  "dummy_progress p = fold (\<lambda>i _. (int i + 1) * 10) [0..<10] p"

text \<open>
  \<^verbatim>\<open>process_video_dummy\<close>, given the four results of \<^verbatim>\<open>random.randint\<close>. It returns the
  result dict and the value it leaves in \<^verbatim>\<open>processing_status['progress']\<close>.
\<close>

definition process_video_dummy :: "int \<times> int \<times> int \<times> int \<Rightarrow> pipeline_result \<times> int" where
  "process_video_dummy rnd =
     (case rnd of (a, b, c, d) \<Rightarrow>
        let vc = [(''laneA'', a), (''laneB'', b), (''laneC'', c), (''laneD'', d)];
            p = dummy_progress 0
        in case calculate_signal_timing vc of
             Inl e \<Rightarrow> (Failure e ''Error in dummy mode processing'', p)
           | Inr signals \<Rightarrow>
               (Success vc signals 0 ''Video processed in dummy mode (random data)'', p))"

text \<open>
  \<^verbatim>\<open>process_video_yolo\<close>: every exception raised inside its \<^verbatim>\<open>try\<close> becomes a result
  with \<^verbatim>\<open>'success': False\<close>. The second argument is the progress value it finds.
\<close>

definition yolo_failed :: "exn \<Rightarrow> pipeline_result" where
  "yolo_failed e = Failure e ''Error processing video with YOLO, falling back to dummy mode''"

definition process_video_yolo ::
    "bool \<Rightarrow> int \<times> int \<times> int \<times> int \<Rightarrow> video_source \<Rightarrow> int \<Rightarrow> pipeline_result \<times> int" where
  "process_video_yolo yolo_available rnd src p =
     (if \<not> yolo_available then process_video_dummy rnd
      else if \<not> model_loads src then (yolo_failed ModelLoadError, p)
      else if \<not> opens src then (yolo_failed CouldNotOpen, p)
      else
        case process_frames (total_frames src) (frames src)
               \<lparr>frame_count = 0,
                vehicle_counts = [(''laneA'', 0), (''laneB'', 0), (''laneC'', 0), (''laneD'', 0)],
                frame_width_local = None,
                progress_global = p\<rparr> of
          (Some e, st) \<Rightarrow> (yolo_failed e, progress_global st)
        | (None, st) \<Rightarrow>
            (case calculate_signal_timing (vehicle_counts st) of
               Inl e \<Rightarrow> (yolo_failed e, progress_global st)
             | Inr signals \<Rightarrow>
                 (Success (vehicle_counts st) signals (frame_count st)
                    ''Video processed successfully with YOLO'', progress_global st)))"

subsection \<open>app.py: the request handlers\<close>

text \<open>
  What one \<^verbatim>\<open>/process_video\<close> request meets outside the program: the import-time flag
  \<^verbatim>\<open>YOLO_AVAILABLE\<close>, the clock, \<^verbatim>\<open>secure_filename\<close> of werkzeug, what
  \<^verbatim>\<open>file.save\<close> and \<^verbatim>\<open>os.remove\<close> do, the random numbers of the fallback, and the
  video. \<^verbatim>\<open>file.save\<close> either stores the file or raises, and then a partial file may
  or may not be left behind; \<^verbatim>\<open>os.remove\<close> either removes the file or raises.
\<close>

datatype save_result = Saved | SaveRaises bool

record environment =
  YOLO_AVAILABLE :: bool
  timestamp :: string
  secure_filename :: "string \<Rightarrow> string"
  save_outcome :: save_result
  remove_raises :: bool
  randint :: "int \<times> int \<times> int \<times> int"
  video :: video_source

text \<open>The request: the filename of the \<^verbatim>\<open>video\<close> part, if the request has one.\<close>

type_synonym upload_request = "string option"

datatype upload_response =
  Rejected string nat
    \<comment> \<open>\<^verbatim>\<open>{'success': False, 'error': ..}\<close> with its HTTP status\<close>
| Processed pipeline_result
    \<comment> \<open>\<^verbatim>\<open>jsonify(result)\<close>, HTTP 200\<close>
| Crashed exn
    \<comment> \<open>the \<^verbatim>\<open>except\<close> branch: \<^verbatim>\<open>{'success': False, 'error': str(e), 'message': 'Error processing video'}\<close>, HTTP 500\<close>

text \<open>The \<^verbatim>\<open>except Exception\<close> branch of \<^verbatim>\<open>process_video\<close>.\<close>

definition process_video_except :: "exn \<Rightarrow> app_state \<Rightarrow> upload_response \<times> app_state" where
  "process_video_except e s =
     (Crashed e, s\<lparr>processing_status := (processing_status s)\<lparr>status := ''error''\<rparr>\<rparr>)"

definition video_path_of :: "environment \<Rightarrow> string \<Rightarrow> string" where
  "video_path_of env filename =
     ''uploads/'' @ timestamp env @ ''_'' @ secure_filename env filename"

definition process_video :: "environment \<Rightarrow> upload_request \<Rightarrow> app_state \<Rightarrow> upload_response \<times> app_state" where
  "process_video env request s =
     (case request of
        None \<Rightarrow> (Rejected ''No video file provided'' 400, s)
      | Some filename \<Rightarrow>
          if filename = [] then (Rejected ''No file selected'' 400, s)
          else if allowed_file filename then
            let video_path = video_path_of env filename in
            case save_outcome env of
              SaveRaises partial \<Rightarrow>
                process_video_except OSError
                  (if partial then s\<lparr>files := insert video_path (files s)\<rparr> else s)
            | Saved \<Rightarrow>
                let s1 = s\<lparr>files := insert video_path (files s)\<rparr>;
                    s2 = s1\<lparr>processing_status := \<lparr>status = ''processing'', progress = 0\<rparr>\<rparr>;
                    (result, p) =
                      (if YOLO_AVAILABLE env
                       then process_video_yolo (YOLO_AVAILABLE env) (randint env) (video env)
                              (progress (processing_status s2))
                       else process_video_dummy (randint env));
                    s3 = s2\<lparr>processing_status := (processing_status s2)\<lparr>progress := p\<rparr>\<rparr>;
                    s4 = (if success result
                          then s3\<lparr>current_video_data := stored_signals (result_signals result)\<rparr>
                          else s3);
                    s5 = s4\<lparr>processing_status := \<lparr>status = ''completed'', progress = 100\<rparr>\<rparr>
                in if video_path \<in> files s5
                   then if remove_raises env then process_video_except OSError s5
                        else (Processed result, s5\<lparr>files := files s5 - {video_path}\<rparr>)
                   else (Processed result, s5)
          else (Rejected ''Invalid file type. Allowed: mp4, avi, mov, mkv'' 400, s))"

text \<open>
  Flask serves every request in a thread of its own, so other handlers can run between
  two statements of \<^verbatim>\<open>process_video\<close>. The handler is therefore also given in two
  pieces, cut between the reset of the status (line 305) and the call of the processing
  function (line 308): \<open>process_video_accept\<close> is the part before the cut, which ends the
  request early or hands on the path of the saved upload, and \<open>process_video_job\<close> is
  the part after it, from whatever state it then finds. \<open>process_video\<close> is the first
  followed at once by the second (lemma \<open>process_video_phases\<close>).
\<close>

definition process_video_accept ::
    "environment \<Rightarrow> upload_request \<Rightarrow> app_state \<Rightarrow> (upload_response + string) \<times> app_state" where
  "process_video_accept env request s =
     (case request of
        None \<Rightarrow> (Inl (Rejected ''No video file provided'' 400), s)
      | Some filename \<Rightarrow>
          if filename = [] then (Inl (Rejected ''No file selected'' 400), s)
          else if allowed_file filename then
            let video_path = video_path_of env filename in
            case save_outcome env of
              SaveRaises partial \<Rightarrow>
                (case process_video_except OSError
                        (if partial then s\<lparr>files := insert video_path (files s)\<rparr> else s) of
                   (response, s') \<Rightarrow> (Inl response, s'))
            | Saved \<Rightarrow>
                let s1 = s\<lparr>files := insert video_path (files s)\<rparr>;
                    s2 = s1\<lparr>processing_status := \<lparr>status = ''processing'', progress = 0\<rparr>\<rparr>
                in (Inr video_path, s2)
          else (Inl (Rejected ''Invalid file type. Allowed: mp4, avi, mov, mkv'' 400), s))"

definition process_video_job :: "environment \<Rightarrow> string \<Rightarrow> app_state \<Rightarrow> upload_response \<times> app_state" where
  "process_video_job env video_path s2 =
     (let (result, p) =
            (if YOLO_AVAILABLE env
             then process_video_yolo (YOLO_AVAILABLE env) (randint env) (video env)
                    (progress (processing_status s2))
             else process_video_dummy (randint env));
          s3 = s2\<lparr>processing_status := (processing_status s2)\<lparr>progress := p\<rparr>\<rparr>;
          s4 = (if success result
                then s3\<lparr>current_video_data := stored_signals (result_signals result)\<rparr>
                else s3);
          s5 = s4\<lparr>processing_status := \<lparr>status = ''completed'', progress = 100\<rparr>\<rparr>
      in if video_path \<in> files s5
         then if remove_raises env then process_video_except OSError s5
              else (Processed result, s5\<lparr>files := files s5 - {video_path}\<rparr>)
         else (Processed result, s5))"

text \<open>\<^verbatim>\<open>get_traffic_data\<close>: \<^verbatim>\<open>success\<close>, \<^verbatim>\<open>data\<close> and \<^verbatim>\<open>timestamp\<close>.\<close>

definition get_traffic_data :: "string \<Rightarrow> app_state \<Rightarrow> bool \<times> json lane_data dict \<times> string" where
  "get_traffic_data now s = (True, current_video_data s, now)"

text \<open>\<^verbatim>\<open>get_processing_status\<close>.\<close>

definition get_processing_status :: "app_state \<Rightarrow> status_data" where
  "get_processing_status s = processing_status s"

text \<open>
  \<^verbatim>\<open>simulate_traffic\<close>. The body is \<open>None\<close> when \<^verbatim>\<open>request.get_json()\<close> gives a value
  without \<^verbatim>\<open>.get\<close>; otherwise it is a JSON object with an optional \<^verbatim>\<open>lane\<close> and an
  optional \<^verbatim>\<open>count\<close>. The lane is only formatted into the key \<^verbatim>\<open>f'lane{lane}'\<close>, so
  \<open>lane_field\<close> is the text that formatting gives for it; the count is stored as it is,
  whatever JSON value it is. The first argument is the result of
  \<^verbatim>\<open>random.randint(5, 20)\<close>, the default count.
\<close>

record simulate_body =
  lane_field :: "string option"
  count_field :: "json option"

datatype simulate_response =
  Updated string json "json lane_data dict"
    \<comment> \<open>\<^verbatim>\<open>{'success': True, 'message': .., 'data': current_video_data}\<close>, HTTP 200\<close>
| InvalidLane string
    \<comment> \<open>\<^verbatim>\<open>{'success': False, 'error': 'Invalid lane: ..'}\<close>, HTTP 400\<close>
| SimulateCrashed exn
    \<comment> \<open>the \<^verbatim>\<open>except\<close> branch, HTTP 500\<close>

fun simulate_success :: "simulate_response \<Rightarrow> bool" where
  "simulate_success (Updated _ _ _) = True"
| "simulate_success (InvalidLane _) = False"
| "simulate_success (SimulateCrashed _) = False"

fun simulate_http_status :: "simulate_response \<Rightarrow> nat" where
  "simulate_http_status (Updated _ _ _) = 200"
| "simulate_http_status (InvalidLane _) = 400"
| "simulate_http_status (SimulateCrashed _) = 500"

text \<open>The dict comprehension \<^verbatim>\<open>{lane: data['count'] for lane, data in d.items()}\<close>.\<close>

definition counts_of :: "'c lane_data dict \<Rightarrow> 'c dict" where
  "counts_of d = fold (\<lambda>(lane, data) acc. dict_set acc lane (count data)) d []"

text \<open>
  The count is written into the state before the timing is computed: when the timing
  raises, the \<^verbatim>\<open>except\<close> branch answers and the written count stays.
\<close>

definition simulate_traffic ::
    "int \<Rightarrow> simulate_body option \<Rightarrow> app_state \<Rightarrow> simulate_response \<times> app_state" where
  "simulate_traffic rnd body s =
     (case body of
        None \<Rightarrow> (SimulateCrashed AttributeError, s)
      | Some data \<Rightarrow>
          let lane = (case lane_field data of None \<Rightarrow> ''A'' | Some l \<Rightarrow> l);
              cnt = (case count_field data of None \<Rightarrow> JInt rnd | Some c \<Rightarrow> c);
              key = ''lane'' @ lane
          in case dict_get (current_video_data s) key of
               None \<Rightarrow> (InvalidLane lane, s)
             | Some entry \<Rightarrow>
                 let d1 = dict_set (current_video_data s) key (entry\<lparr>count := cnt\<rparr>);
                     vc = counts_of d1
                 in case calculate_signal_timing_json vc of
                      Inl e \<Rightarrow> (SimulateCrashed e, s\<lparr>current_video_data := d1\<rparr>)
                    | Inr signals \<Rightarrow>
                        let d2 = dict_update d1 signals
                        in (Updated lane cnt d2, s\<lparr>current_video_data := d2\<rparr>))"

text \<open>\<^verbatim>\<open>reset_signals\<close>.\<close>

definition reset_signals :: "app_state \<Rightarrow> app_state" where
  "reset_signals s = s\<lparr>current_video_data := initial_video_data\<rparr>"


text \<open>
  The result dict that \<^verbatim>\<open>process_video\<close> obtains from the processing function it
  selects, once the upload is saved and the progress is reset to 0.
\<close>

definition pipeline_result_of :: "environment \<Rightarrow> pipeline_result" where
  "pipeline_result_of env =
     fst (if YOLO_AVAILABLE env
          then process_video_yolo (YOLO_AVAILABLE env) (randint env) (video env) 0
          else process_video_dummy (randint env))"

subsection \<open>Reachable states\<close>

text \<open>
  The states that the handlers writing the signal state can produce from the initial
  one, whatever the requests and the environment are. The two pieces of
  \<^verbatim>\<open>process_video\<close> are steps of their own, so that other handlers can run between them;
  the second piece may start from any reachable state, which covers every job in flight.
\<close>

definition app_lanes :: "string list" where
  "app_lanes = [''laneA'', ''laneB'', ''laneC'', ''laneD'']"

inductive reachable :: "app_state \<Rightarrow> bool" where
  start: "reachable initial_state"
| upload: "reachable s \<Longrightarrow> reachable (snd (process_video env request s))"
| accept: "reachable s \<Longrightarrow> reachable (snd (process_video_accept env request s))"
| job: "reachable s \<Longrightarrow> reachable (snd (process_video_job env video_path s))"
| simulate: "reachable s \<Longrightarrow> reachable (snd (simulate_traffic rnd body s))"
| reset: "reachable s \<Longrightarrow> reachable (reset_signals s)"

subsection \<open>Concrete inputs\<close>

text \<open>
  A video that \<^verbatim>\<open>cv2.VideoCapture\<close> cannot open, and three environments: the fallback
  mode (no detector) with file operations that succeed, the same with an \<^verbatim>\<open>os.remove\<close>
  that raises, and a detector that meets the unopenable video. The random counts lie in
  the ranges of \<^verbatim>\<open>process_video_dummy\<close>.
\<close>

definition unopenable_video :: video_source where
  "unopenable_video = \<lparr>model_loads = True, opens = False, total_frames = 0, frames = []\<rparr>"

definition fallback_env :: environment where
  "fallback_env =
     \<lparr>YOLO_AVAILABLE = False, timestamp = ''20240101_120000'', secure_filename = (\<lambda>name. name),
      save_outcome = Saved, remove_raises = False, randint = (12, 7, 15, 9),
      video = unopenable_video\<rparr>"

definition remove_fails_env :: environment where
  "remove_fails_env = fallback_env\<lparr>remove_raises := True\<rparr>"

definition detector_env :: environment where
  "detector_env = fallback_env\<lparr>YOLO_AVAILABLE := True\<rparr>"

section \<open>Properties\<close>

subsection \<open>Dictionaries and the first maximum\<close>

lemma dict_set_fresh: "k \<notin> set (map fst d) \<Longrightarrow> dict_set d k v = d @ [(k, v)]"
  by (induction d) auto

lemma fold_dict_set_fresh:
  "distinct (map fst xs) \<Longrightarrow> set (map fst xs) \<inter> set (map fst acc) = {} \<Longrightarrow>
   fold (\<lambda>(k, v) s. dict_set s k (h k v)) xs acc = acc @ map (\<lambda>(k, v). (k, h k v)) xs"
proof (induction xs arbitrary: acc)
  case Nil
  then show ?case by simp
next
  case (Cons x xs)
  obtain k v where x: "x = (k, v)" by (cases x)
  from Cons.prems have fresh: "k \<notin> set (map fst acc)" by (auto simp: x)
  have "fold (\<lambda>(k, v) s. dict_set s k (h k v)) xs (acc @ [(k, h k v)])
        = (acc @ [(k, h k v)]) @ map (\<lambda>(k, v). (k, h k v)) xs"
    using Cons.prems by (intro Cons.IH) (auto simp: x)
  then show ?case by (simp add: x dict_set_fresh[OF fresh])
qed

lemma max_first_mem: "max_first f b xs \<in> set (b # xs)"
  by (induction xs arbitrary: b) auto

lemma max_first_ge_best: "f b \<le> f (max_first f b xs)"
proof (induction xs arbitrary: b)
  case Nil show ?case by simp
next
  case (Cons x xs)
  show ?case using Cons.IH[of x] Cons.IH[of b] by (auto)
qed

lemma max_first_ge: "x \<in> set (b # xs) \<Longrightarrow> f x \<le> f (max_first f b xs)"
proof (induction xs arbitrary: b)
  case Nil then show ?case by simp
next
  case (Cons y ys)
  then show ?case
    using max_first_ge_best[of f y ys] max_first_ge_best[of f b ys]
    by (auto split: if_splits intro: order_trans)
qed

text \<open>Everything in front of the chosen element is strictly smaller.\<close>

lemma max_first_split:
  "\<exists>pre post. b # xs = pre @ max_first f b xs # post \<and>
     (\<forall>x\<in>set pre. f x < f (max_first f b xs)) \<and>
     (\<forall>x\<in>set post. f x \<le> f (max_first f b xs))"
proof (induction xs arbitrary: b)
  case Nil
  have "[b] = [] @ b # [] \<and> (\<forall>x\<in>set []. f x < f b) \<and> (\<forall>x\<in>set []. f x \<le> f b)"
    by simp
  then show ?case unfolding max_first.simps by blast
next
  case (Cons y ys)
  show ?case
  proof (cases "f y > f b")
    case True
    then have m: "max_first f b (y # ys) = max_first f y ys" by simp
    from Cons.IH[of y] obtain pre post where
      s: "y # ys = pre @ max_first f y ys # post"
      and lt: "\<forall>x\<in>set pre. f x < f (max_first f y ys)"
      and le: "\<forall>x\<in>set post. f x \<le> f (max_first f y ys)" by blast
    have "f b < f (max_first f y ys)"
      using True max_first_ge_best[of f y ys] by simp
    with s lt le have "b # y # ys = (b # pre) @ max_first f y ys # post \<and>
        (\<forall>x\<in>set (b # pre). f x < f (max_first f y ys)) \<and>
        (\<forall>x\<in>set post. f x \<le> f (max_first f y ys))" by simp
    then show ?thesis unfolding m by blast
  next
    case False
    then have m: "max_first f b (y # ys) = max_first f b ys" by simp
    from Cons.IH[of b] obtain pre post where
      s: "b # ys = pre @ max_first f b ys # post"
      and lt: "\<forall>x\<in>set pre. f x < f (max_first f b ys)"
      and le: "\<forall>x\<in>set post. f x \<le> f (max_first f b ys)" by blast
    show ?thesis
    proof (cases pre)
      case Nil
      from s have "b # ys = max_first f b ys # post" unfolding Nil append_Nil .
      then have b: "max_first f b ys = b" and ys: "post = ys" by auto
      have "f y \<le> f (max_first f b ys)" using False b by simp
      with le ys b have "b # y # ys = [] @ max_first f b ys # (y # post) \<and>
        (\<forall>x\<in>set []. f x < f (max_first f b ys)) \<and>
        (\<forall>x\<in>set (y # post). f x \<le> f (max_first f b ys))" by simp
      then show ?thesis unfolding m by blast
    next
      case (Cons p pre')
      from s have "b # ys = p # (pre' @ max_first f b ys # post)" unfolding Cons append_Cons .
      then have p: "p = b" and ys: "ys = pre' @ max_first f b ys # post" by auto
      from lt Cons p have "f b < f (max_first f b ys)" by simp
      with False have "f y < f (max_first f b ys)" by simp
      with lt le Cons p ys have "b # y # ys = (b # y # pre') @ max_first f b ys # post \<and>
        (\<forall>x\<in>set (b # y # pre'). f x < f (max_first f b ys)) \<and>
        (\<forall>x\<in>set post. f x \<le> f (max_first f b ys))" by simp
      then show ?thesis unfolding m by blast
    qed
  qed
qed

lemma max_first_before:
  assumes "x \<in> set (takeWhile (\<lambda>y. y \<noteq> max_first f b xs) (b # xs))"
  shows "f x < f (max_first f b xs)"
proof -
  obtain pre post where
      s: "b # xs = pre @ max_first f b xs # post"
      and lt: "\<forall>x\<in>set pre. f x < f (max_first f b xs)"
    using max_first_split[of b xs f] by blast
  from lt have "\<forall>x\<in>set pre. x \<noteq> max_first f b xs" by auto
  then have "takeWhile (\<lambda>y. y \<noteq> max_first f b xs) (pre @ max_first f b xs # post) = pre"
    by (simp add: takeWhile_append2)
  with assms s lt show ?thesis by simp
qed


subsection \<open>Counts and maxima of a dict\<close>

lemma count_of_mem:
  "distinct (keys vc) \<Longrightarrow> (k, c) \<in> set vc \<Longrightarrow> count_of vc k = c"
proof -
  assume "distinct (keys vc)" and "(k, c) \<in> set vc"
  then have "map_of vc k = Some c" unfolding keys_def by (rule map_of_is_SomeI)
  then show ?thesis by (simp add: count_of_def dict_get_def)
qed

lemma value_has_key: "v \<in> set (dict_values d) \<Longrightarrow> \<exists>k. (k, v) \<in> set d"
  by (auto simp: dict_values_def)

lemma key_has_value: "k \<in> set (keys d) \<Longrightarrow> \<exists>v. (k, v) \<in> set d"
  by (auto simp: keys_def)

lemma item_key: "(k, v) \<in> set d \<Longrightarrow> k \<in> set (keys d)"
  by (force simp: keys_def)

lemma item_value: "(k, v) \<in> set d \<Longrightarrow> v \<in> set (dict_values d)"
  by (force simp: dict_values_def)

lemma count_of_in_values:
  assumes "distinct (keys vc)" and "k \<in> set (keys vc)"
  shows "(k, count_of vc k) \<in> set vc"
proof -
  from key_has_value[OF assms(2)] obtain c where "(k, c) \<in> set vc" ..
  with assms(1) show ?thesis by (simp add: count_of_mem)
qed

lemma max_count_is_count_of_max_lane:
  assumes d: "distinct (keys vc)"
    and ks: "keys vc = k0 # ks"
    and cs: "dict_values vc = c0 # cs"
  shows "max_first id c0 cs = count_of vc (max_first (count_of vc) k0 ks)"
proof -
  let ?m = "max_first id c0 cs"
  let ?g = "max_first (count_of vc) k0 ks"
  have g_key: "?g \<in> set (keys vc)"
    unfolding ks by (rule max_first_mem)
  have m_val: "?m \<in> set (dict_values vc)"
    unfolding cs by (rule max_first_mem)
  from count_of_in_values[OF d g_key] have "count_of vc ?g \<in> set (dict_values vc)"
    by (rule item_value)
  then have "count_of vc ?g \<in> set (c0 # cs)" unfolding cs .
  from max_first_ge[of "count_of vc ?g" c0 cs id, OF this]
  have le1: "count_of vc ?g \<le> ?m" by simp
  from value_has_key[OF m_val] obtain k where km: "(k, ?m) \<in> set vc" ..
  then have "k \<in> set (keys vc)" by (rule item_key)
  then have "k \<in> set (k0 # ks)" unfolding ks .
  from max_first_ge[of k k0 ks "count_of vc", OF this]
  have "count_of vc k \<le> count_of vc ?g" .
  moreover have "count_of vc k = ?m" using d km by (rule count_of_mem)
  ultimately show ?thesis using le1 by linarith
qed

lemma green_time_steps:
  "(if m > 15 then 30 else if m > 10 then 25 else if m > 5 then 20 else (15::int))
   = get_signal_timing m"
  by (simp add: get_signal_timing_def BASE_GREEN_TIME_def MAX_GREEN_TIME_def)

text \<open>The two timing functions in closed form, for a dict with at least one key.\<close>

lemma fill_loop_closed:
  assumes dv: "distinct (keys vc)"
  shows "fold (\<lambda>(lane, cnt) signals.
                 if lane = g
                 then dict_set signals lane
                        \<lparr>count = cnt, signal = ''Green'', time = gt, priority = prio True\<rparr>
                 else dict_set signals lane
                        \<lparr>count = cnt, signal = ''Red'', time = 15, priority = prio False\<rparr>) vc []
         = assignment g gt prio vc"
proof -
  have step: "(\<lambda>(lane, cnt) signals.
                 if lane = g
                 then dict_set signals lane
                        \<lparr>count = cnt, signal = ''Green'', time = gt, priority = prio True\<rparr>
                 else dict_set signals lane
                        \<lparr>count = cnt, signal = ''Red'', time = 15, priority = prio False\<rparr>)
        = (\<lambda>(lane, cnt) signals. dict_set signals lane
             \<lparr>count = cnt, signal = (if lane = g then ''Green'' else ''Red''),
              time = (if lane = g then gt else 15),
              priority = prio (lane = g)\<rparr>)"
    by (auto simp: fun_eq_iff)
  from dv have "distinct (map fst vc)" by (simp add: keys_def)
  then show ?thesis
    unfolding step assignment_def by (subst fold_dict_set_fresh) simp_all
qed

lemma calculate_signal_timing_closed:
  assumes d: "distinct (keys vc)" and ne: "vc = (k0, c0) # rest"
  defines "g \<equiv> max_first (count_of vc) k0 (keys rest)"
  shows "calculate_signal_timing vc
         = Inr (assignment g (get_signal_timing (count_of vc g)) (\<lambda>_. None) vc)"
proof -
  have mc: "max_first id c0 (dict_values rest) = count_of vc g"
    unfolding g_def using d
    by (rule max_count_is_count_of_max_lane) (simp_all add: ne keys_def dict_values_def)
  have "calculate_signal_timing vc = Inr (fold (\<lambda>(lane, cnt) signals.
                 if lane = g
                 then dict_set signals lane
                        \<lparr>count = cnt, signal = ''Green'', time = get_signal_timing (max_first id c0 (dict_values rest)), priority = None\<rparr>
                 else dict_set signals lane
                        \<lparr>count = cnt, signal = ''Red'', time = 15, priority = None\<rparr>) vc [])"
    unfolding g_def ne
    by (simp only: calculate_signal_timing_def py_max_def dict_values_def keys_def list.map
          list.case sum.case fst_conv snd_conv Let_def green_time_steps)
  also have "\<dots> = Inr (assignment g (get_signal_timing (count_of vc g)) (\<lambda>_. None) vc)"
    unfolding mc
    using fill_loop_closed[OF d, of g "get_signal_timing (count_of vc g)" "\<lambda>_. None"]
    by (simp only:)
  finally show ?thesis .
qed

lemma calculate_adaptive_timing_closed:
  assumes d: "distinct (keys vc)" and ne: "vc = (k0, c0) # rest"
  defines "g \<equiv> max_first (count_of vc) k0 (keys rest)"
  shows "calculate_adaptive_timing vc
         = Inr (assignment g (get_signal_timing (count_of vc g))
                  (\<lambda>b. Some (if b then ''High'' else ''Low'')) vc)"
proof -
  have "calculate_adaptive_timing vc = Inr (fold (\<lambda>(lane, cnt) signals.
                 if lane = g
                 then dict_set signals lane
                        \<lparr>count = cnt, signal = ''Green'', time = get_signal_timing (count_of vc g), priority = Some ''High''\<rparr>
                 else dict_set signals lane
                        \<lparr>count = cnt, signal = ''Red'', time = 15, priority = Some ''Low''\<rparr>) vc [])"
    unfolding g_def ne
    by (simp only: calculate_adaptive_timing_def py_max_def dict_values_def keys_def list.map
          list.case sum.case fst_conv snd_conv Let_def green_time_steps)
  also have "\<dots> = Inr (assignment g (get_signal_timing (count_of vc g))
                  (\<lambda>b. Some (if b then ''High'' else ''Low'')) vc)"
    using fill_loop_closed[OF d, of g "get_signal_timing (count_of vc g)"
            "\<lambda>b. Some (if b then ''High'' else ''Low'')"]
    by (simp only: if_True if_False)
  finally show ?thesis .
qed

subsection \<open>Properties of the closed form\<close>

lemma keys_assignment: "keys (assignment g gt prio vc) = keys vc"
  by (induction vc) (auto simp: assignment_def keys_def)

lemma green_lanes_assignment_absent:
  "g \<notin> set (keys vc) \<Longrightarrow> green_lanes (assignment g gt prio vc) = []"
  by (induction vc) (auto simp: assignment_def keys_def green_lanes_def)

lemma green_lanes_assignment:
  "distinct (keys vc) \<Longrightarrow> g \<in> set (keys vc) \<Longrightarrow> green_lanes (assignment g gt prio vc) = [g]"
proof (induction vc)
  case Nil
  then show ?case by (simp add: keys_def)
next
  case (Cons p vc)
  obtain k c where p: "p = (k, c)" by (cases p)
  show ?case
  proof (cases "k = g")
    case True
    with Cons.prems have "g \<notin> set (keys vc)" by (simp add: p keys_def)
    then have "green_lanes (assignment g gt prio vc) = []"
      by (rule green_lanes_assignment_absent)
    then show ?thesis using True
      by (simp add: p assignment_def green_lanes_def)
  next
    case False
    with Cons.prems have "distinct (keys vc)" and "g \<in> set (keys vc)"
      by (auto simp: p keys_def)
    then have "green_lanes (assignment g gt prio vc) = [g]" by (rule Cons.IH)
    then show ?thesis using False
      by (simp add: p assignment_def green_lanes_def)
  qed
qed

lemma cycle_time_sum:
  "fold (\<lambda>lane_data total_time. total_time + time lane_data) ds a = a + sum_list (map time ds)"
  by (induction ds arbitrary: a) auto

lemma cycle_time_assignment_absent:
  "g \<notin> set (keys vc) \<Longrightarrow>
   sum_list (map time (dict_values (assignment g gt prio vc))) = 15 * int (length vc)"
  by (induction vc) (auto simp: assignment_def keys_def dict_values_def)

lemma cycle_time_assignment:
  "distinct (keys vc) \<Longrightarrow> g \<in> set (keys vc) \<Longrightarrow>
   calculate_cycle_time (assignment g gt prio vc) = gt + 15 * (int (length vc) - 1)"
proof (induction vc)
  case Nil
  then show ?case by (simp add: keys_def)
next
  case (Cons p vc)
  obtain k c where p: "p = (k, c)" by (cases p)
  have unfold: "calculate_cycle_time (assignment g gt prio (p # vc))
      = (if k = g then gt else 15) + calculate_cycle_time (assignment g gt prio vc)"
    by (simp add: calculate_cycle_time_def cycle_time_sum p assignment_def dict_values_def)
  show ?case
  proof (cases "k = g")
    case True
    with Cons.prems have "g \<notin> set (keys vc)" by (simp add: p keys_def)
    then have "calculate_cycle_time (assignment g gt prio vc) = 15 * int (length vc)"
      by (simp add: calculate_cycle_time_def cycle_time_sum cycle_time_assignment_absent)
    then show ?thesis using True unfold by simp
  next
    case False
    with Cons.prems have "distinct (keys vc)" and "g \<in> set (keys vc)"
      by (auto simp: p keys_def)
    then have "calculate_cycle_time (assignment g gt prio vc) = gt + 15 * (int (length vc) - 1)"
      by (rule Cons.IH)
    then show ?thesis using False unfold by simp
  qed
qed

lemma entries_assignment:
  assumes "distinct (keys vc)"
  shows "list_all (\<lambda>(lane, d). count d = count_of vc lane \<and>
                 (if lane = g
                  then signal d = ''Green'' \<and> time d = gt
                  else signal d = ''Red'' \<and> time d = 15)) (assignment g gt prio vc)"
  unfolding list_all_iff assignment_def
  using assms by (auto simp: count_of_mem)

lemma single_green_assignment:
  assumes d: "distinct (keys vc)" and g: "g \<in> set (keys vc)"
  shows "single_green vc (assignment g (get_signal_timing (count_of vc g)) prio vc) g"
proof -
  let ?s = "assignment g (get_signal_timing (count_of vc g)) prio vc"
  have len: "length ?s = length vc" by (simp add: assignment_def)
  have "list_all (\<lambda>(lane, d). count d = count_of vc lane \<and>
                 (if lane = g
                  then signal d = ''Green'' \<and> time d = get_signal_timing (count d)
                  else signal d = ''Red'' \<and> time d = 15)) ?s"
    using entries_assignment[OF d, of g "get_signal_timing (count_of vc g)" prio]
    unfolding list_all_iff by auto
  then show ?thesis
    unfolding single_green_def
    using keys_assignment[of g _ prio vc] green_lanes_assignment[OF d g]
      cycle_time_assignment[OF d g] len by simp
qed

subsection \<open>The timing decision\<close>

lemma max_lane_first_maximum:
  assumes d: "distinct (keys vc)" and ne: "vc = (k0, c0) # rest"
  defines "g \<equiv> max_first (count_of vc) k0 (keys rest)"
  shows "g \<in> set (keys vc)"
    and "\<forall>l\<in>set (keys vc). count_of vc l \<le> count_of vc g"
    and "\<forall>l\<in>set (takeWhile (\<lambda>k. k \<noteq> g) (keys vc)). count_of vc l < count_of vc g"
    and "sorted (keys vc) \<Longrightarrow> \<forall>l\<in>set (keys vc). count_of vc l = count_of vc g \<longrightarrow> g \<le> l"
proof -
  have ks: "keys vc = k0 # keys rest" by (simp add: ne keys_def)
  show g_in: "g \<in> set (keys vc)" unfolding ks g_def by (rule max_first_mem)
  show "\<forall>l\<in>set (keys vc). count_of vc l \<le> count_of vc g"
    unfolding ks g_def using max_first_ge[of _ k0 "keys rest" "count_of vc"] by blast
  show before: "\<forall>l\<in>set (takeWhile (\<lambda>k. k \<noteq> g) (keys vc)). count_of vc l < count_of vc g"
    unfolding ks g_def using max_first_before[of _ "count_of vc" k0 "keys rest"] by blast
  assume srt: "sorted (keys vc)"
  show "\<forall>l\<in>set (keys vc). count_of vc l = count_of vc g \<longrightarrow> g \<le> l"
  proof (intro ballI impI)
    fix l assume l: "l \<in> set (keys vc)" and eq: "count_of vc l = count_of vc g"
    have split: "keys vc = takeWhile (\<lambda>k. k \<noteq> g) (keys vc) @ dropWhile (\<lambda>k. k \<noteq> g) (keys vc)"
      by simp
    from g_in have "dropWhile (\<lambda>k. k \<noteq> g) (keys vc) \<noteq> []"
      by (simp add: dropWhile_eq_Nil_conv) 
    then obtain post where dw: "dropWhile (\<lambda>k. k \<noteq> g) (keys vc) = g # post"
      using hd_dropWhile[of "\<lambda>k. k \<noteq> g" "keys vc"]
      by (cases "dropWhile (\<lambda>k. k \<noteq> g) (keys vc)") auto
    from before eq l have "l \<notin> set (takeWhile (\<lambda>k. k \<noteq> g) (keys vc))" by auto
    with l split dw have "l = g \<or> l \<in> set post"
      by (metis Un_iff set_ConsD set_append)
    moreover from srt split dw have "sorted (g # post)"
      by (metis sorted_append)
    ultimately show "g \<le> l" by auto
  qed
qed

text \<open>
  Claim C1. For every non-empty lane-count mapping (a dict, so with distinct keys; in
  particular one over the four lanes), \<^verbatim>\<open>calculate_signal_timing\<close> and
  \<^verbatim>\<open>calculate_adaptive_timing\<close> return a state with exactly one Green lane, whose
  duration follows the step table on its count (at most 5: 15 s, 6 to 10: 20 s, 11 to 15:
  25 s, above 15: 30 s); every other lane is Red with duration 15; and the cycle time of
  that state is the Green duration plus 15 times the number of lanes minus one.
\<close>

theorem timing_single_green:
  assumes "vc \<noteq> []" and "distinct (keys vc)"
  shows "(\<exists>signals g. calculate_signal_timing vc = Inr signals \<and> single_green vc signals g) \<and>
         (\<exists>signals g. calculate_adaptive_timing vc = Inr signals \<and> single_green vc signals g)"
proof -
  from assms(1) obtain k0 c0 rest where ne: "vc = (k0, c0) # rest"
    by (cases vc) auto
  let ?g = "max_first (count_of vc) k0 (keys rest)"
  have g: "?g \<in> set (keys vc)" using max_lane_first_maximum(1)[OF assms(2) ne] .
  have "single_green vc (assignment ?g (get_signal_timing (count_of vc ?g)) (\<lambda>_. None) vc) ?g"
    using assms(2) g by (rule single_green_assignment)
  moreover have "single_green vc (assignment ?g (get_signal_timing (count_of vc ?g))
                   (\<lambda>b. Some (if b then ''High'' else ''Low'')) vc) ?g"
    using assms(2) g by (rule single_green_assignment)
  ultimately show ?thesis
    unfolding calculate_signal_timing_closed[OF assms(2) ne]
      calculate_adaptive_timing_closed[OF assms(2) ne]
    by blast
qed

theorem timing_single_green_witness:
  "[(''laneA'', 8), (''laneB'', 4), (''laneC'', 20), (''laneD'', 9)] \<noteq> [] \<and>
   distinct (keys [(''laneA'', 8::int), (''laneB'', 4), (''laneC'', 20), (''laneD'', 9)]) \<and>
   (\<exists>signals g.
      calculate_signal_timing [(''laneA'', 8), (''laneB'', 4), (''laneC'', 20), (''laneD'', 9)]
        = Inr signals \<and>
      single_green [(''laneA'', 8), (''laneB'', 4), (''laneC'', 20), (''laneD'', 9)] signals g) \<and>
   (\<exists>signals g.
      calculate_adaptive_timing [(''laneA'', 8), (''laneB'', 4), (''laneC'', 20), (''laneD'', 9)]
        = Inr signals \<and>
      single_green [(''laneA'', 8), (''laneB'', 4), (''laneC'', 20), (''laneD'', 9)] signals g)"
proof -
  have h1: "[(''laneA'', 8::int), (''laneB'', 4), (''laneC'', 20), (''laneD'', 9)] \<noteq> []" by simp
  have h2: "distinct (keys [(''laneA'', 8::int), (''laneB'', 4), (''laneC'', 20), (''laneD'', 9)])"
    by (simp add: keys_def)
  show ?thesis using h1 h2 timing_single_green[OF h1 h2] by blast
qed

lemma scenario_fallback_counts:
  "calculate_signal_timing [(''laneA'', 8), (''laneB'', 4), (''laneC'', 20), (''laneD'', 9)]
   = Inr [(''laneA'', \<lparr>count = 8, signal = ''Red'', time = 15, priority = None\<rparr>),
          (''laneB'', \<lparr>count = 4, signal = ''Red'', time = 15, priority = None\<rparr>),
          (''laneC'', \<lparr>count = 20, signal = ''Green'', time = 30, priority = None\<rparr>),
          (''laneD'', \<lparr>count = 9, signal = ''Red'', time = 15, priority = None\<rparr>)]"
  by (simp add: calculate_signal_timing_def py_max_def dict_values_def keys_def count_of_def
        dict_get_def)


text \<open>
  Claim C2, as amended. The Green lane has the maximum count, and among the lanes with
  the maximum count it is the first one in the iteration order of the mapping: every lane
  in front of it has a strictly smaller count. It is the smallest lane identifier among
  them when the mapping lists its lanes in ascending order, as every mapping built by
  \<^verbatim>\<open>app.py\<close> does; the counts A:10, B:10, C:5, D:5 in that order give Green lane A.
\<close>

theorem green_lane_first_maximum:
  assumes "vc \<noteq> []" and "distinct (keys vc)"
  shows "\<exists>g. g \<in> set (keys vc) \<and>
           (\<exists>signals. calculate_signal_timing vc = Inr signals \<and> green_lanes signals = [g]) \<and>
           (\<exists>signals. calculate_adaptive_timing vc = Inr signals \<and> green_lanes signals = [g]) \<and>
           (\<forall>l\<in>set (keys vc). count_of vc l \<le> count_of vc g) \<and>
           (\<forall>l\<in>set (takeWhile (\<lambda>k. k \<noteq> g) (keys vc)). count_of vc l < count_of vc g) \<and>
           (sorted (keys vc) \<longrightarrow>
              (\<forall>l\<in>set (keys vc). count_of vc l = count_of vc g \<longrightarrow> g \<le> l))"
proof -
  from assms(1) obtain k0 c0 rest where ne: "vc = (k0, c0) # rest"
    by (cases vc) auto
  let ?g = "max_first (count_of vc) k0 (keys rest)"
  note m = max_lane_first_maximum[OF assms(2) ne]
  have "green_lanes (assignment ?g (get_signal_timing (count_of vc ?g)) (\<lambda>_. None) vc) = [?g]"
    using assms(2) m(1) by (rule green_lanes_assignment)
  then have a: "\<exists>signals. calculate_signal_timing vc = Inr signals \<and> green_lanes signals = [?g]"
    unfolding calculate_signal_timing_closed[OF assms(2) ne] by blast
  have "green_lanes (assignment ?g (get_signal_timing (count_of vc ?g))
          (\<lambda>b. Some (if b then ''High'' else ''Low'')) vc) = [?g]"
    using assms(2) m(1) by (rule green_lanes_assignment)
  then have b: "\<exists>signals. calculate_adaptive_timing vc = Inr signals \<and> green_lanes signals = [?g]"
    unfolding calculate_adaptive_timing_closed[OF assms(2) ne] by blast
  from m(4) have c: "sorted (keys vc) \<longrightarrow>
      (\<forall>l\<in>set (keys vc). count_of vc l = count_of vc ?g \<longrightarrow> ?g \<le> l)" by blast
  show ?thesis
    by (rule exI[of _ ?g]) (use m(1) a b m(2) m(3) c in blast)
qed

lemma tie_in_lane_order:
  "calculate_signal_timing [(''laneA'', 10), (''laneB'', 10), (''laneC'', 5), (''laneD'', 5)]
   = Inr [(''laneA'', \<lparr>count = 10, signal = ''Green'', time = 20, priority = None\<rparr>),
          (''laneB'', \<lparr>count = 10, signal = ''Red'', time = 15, priority = None\<rparr>),
          (''laneC'', \<lparr>count = 5, signal = ''Red'', time = 15, priority = None\<rparr>),
          (''laneD'', \<lparr>count = 5, signal = ''Red'', time = 15, priority = None\<rparr>)]"
  by (simp add: calculate_signal_timing_def py_max_def dict_values_def keys_def count_of_def
        dict_get_def)

theorem green_lane_first_maximum_witness:
  "[(''laneA'', 10), (''laneB'', 10), (''laneC'', 5), (''laneD'', 5)] \<noteq> ([] :: int dict) \<and>
   distinct (keys [(''laneA'', 10::int), (''laneB'', 10), (''laneC'', 5), (''laneD'', 5)]) \<and>
   sorted (keys [(''laneA'', 10::int), (''laneB'', 10), (''laneC'', 5), (''laneD'', 5)]) \<and>
   (\<exists>signals.
      calculate_signal_timing [(''laneA'', 10), (''laneB'', 10), (''laneC'', 5), (''laneD'', 5)]
        = Inr signals \<and> green_lanes signals = [''laneA'']) \<and>
   (\<exists>signals.
      calculate_adaptive_timing [(''laneA'', 10), (''laneB'', 10), (''laneC'', 5), (''laneD'', 5)]
        = Inr signals \<and> green_lanes signals = [''laneA''])"
proof -
  let ?vc = "[(''laneA'', 10::int), (''laneB'', 10), (''laneC'', 5), (''laneD'', 5)]"
  have h1: "?vc \<noteq> []" by simp
  have h2: "distinct (keys ?vc)" by (simp add: keys_def)
  have h3: "sorted (keys ?vc)" by (simp add: keys_def)
  from green_lane_first_maximum[OF h1 h2] obtain g where
    g: "g \<in> set (keys ?vc)"
    and a: "\<exists>signals. calculate_signal_timing ?vc = Inr signals \<and> green_lanes signals = [g]"
    and b: "\<exists>signals. calculate_adaptive_timing ?vc = Inr signals \<and> green_lanes signals = [g]"
    and mx: "\<forall>l\<in>set (keys ?vc). count_of ?vc l \<le> count_of ?vc g"
    and srt: "sorted (keys ?vc) \<longrightarrow>
                (\<forall>l\<in>set (keys ?vc). count_of ?vc l = count_of ?vc g \<longrightarrow> g \<le> l)"
    by blast
  have cA: "count_of ?vc ''laneA'' = 10" and cB: "count_of ?vc ''laneB'' = 10"
    and cC: "count_of ?vc ''laneC'' = 5" and cD: "count_of ?vc ''laneD'' = 5"
    by (simp_all add: count_of_def dict_get_def)
  have inA: "''laneA'' \<in> set (keys ?vc)" by (simp add: keys_def)
  from mx inA have "10 \<le> count_of ?vc g" using cA by auto
  with g have gAB: "g = ''laneA'' \<or> g = ''laneB''"
    using cC cD by (auto simp: keys_def)
  then have "count_of ?vc g = 10" using cA cB by auto
  with srt h3 inA cA have "g \<le> ''laneA''" by auto
  with gAB have "g = ''laneA''" by auto
  with a b h1 h2 h3 show ?thesis by blast
qed

text \<open>
  The same counts with lane B inserted before lane A: lane B is Green, although lane A
  has the same count and the smaller identifier.
\<close>

theorem green_lane_tie_counterexample:
  "calculate_signal_timing [(''laneB'', 10), (''laneA'', 10), (''laneC'', 5), (''laneD'', 5)]
   = Inr [(''laneB'', \<lparr>count = 10, signal = ''Green'', time = 20, priority = None\<rparr>),
          (''laneA'', \<lparr>count = 10, signal = ''Red'', time = 15, priority = None\<rparr>),
          (''laneC'', \<lparr>count = 5, signal = ''Red'', time = 15, priority = None\<rparr>),
          (''laneD'', \<lparr>count = 5, signal = ''Red'', time = 15, priority = None\<rparr>)]
   \<and> ''laneA'' < ''laneB''"
  by (simp add: calculate_signal_timing_def py_max_def dict_values_def keys_def count_of_def
        dict_get_def)


lemma timing_empty:
  "calculate_signal_timing [] = Inl ValueError" "calculate_adaptive_timing [] = Inl ValueError"
  by (simp_all add: calculate_signal_timing_def calculate_adaptive_timing_def py_max_def
        dict_values_def keys_def)

lemma timing_nonempty_returns:
  assumes "vc \<noteq> []"
  shows "\<exists>signals. calculate_signal_timing vc = Inr signals"
    and "\<exists>signals. calculate_adaptive_timing vc = Inr signals"
proof -
  from assms obtain p rest where ne: "vc = p # rest" by (cases vc) auto
  show "\<exists>signals. calculate_signal_timing vc = Inr signals"
    unfolding ne
    by (simp only: calculate_signal_timing_def py_max_def dict_values_def keys_def list.map
          list.case sum.case Let_def) blast
  show "\<exists>signals. calculate_adaptive_timing vc = Inr signals"
    unfolding ne
    by (simp only: calculate_adaptive_timing_def py_max_def dict_values_def keys_def list.map
          list.case sum.case Let_def) blast
qed

text \<open>
  Claim C4, as amended. The timing functions fail exactly on the empty mapping, with the
  \<^verbatim>\<open>ValueError\<close> that \<^verbatim>\<open>max\<close> raises on an empty sequence. They do not compare the
  keys with a configured lane set: every non-empty mapping, whatever its keys, gets a
  normal signal state, and that state has the keys of the mapping.
\<close>

theorem timing_fails_only_on_empty:
  "(vc = [] \<longrightarrow>
      calculate_signal_timing vc = Inl ValueError \<and>
      calculate_adaptive_timing vc = Inl ValueError) \<and>
   (vc \<noteq> [] \<longrightarrow>
      (\<exists>signals. calculate_signal_timing vc = Inr signals \<and>
         (distinct (keys vc) \<longrightarrow> keys signals = keys vc)) \<and>
      (\<exists>signals. calculate_adaptive_timing vc = Inr signals \<and>
         (distinct (keys vc) \<longrightarrow> keys signals = keys vc)))"
proof (intro conjI impI)
  assume "vc = []"
  then show "calculate_signal_timing vc = Inl ValueError"
    and "calculate_adaptive_timing vc = Inl ValueError"
    by (simp_all add: timing_empty)
next
  assume ne: "vc \<noteq> []"
  then obtain k0 c0 rest where c: "vc = (k0, c0) # rest" by (cases vc) auto
  from timing_nonempty_returns(1)[OF ne] obtain s1 where s1: "calculate_signal_timing vc = Inr s1" ..
  have "distinct (keys vc) \<longrightarrow> keys s1 = keys vc"
  proof
    assume d: "distinct (keys vc)"
    from s1 show "keys s1 = keys vc"
      unfolding calculate_signal_timing_closed[OF d c] by (auto simp: keys_assignment)
  qed
  with s1 show "\<exists>signals. calculate_signal_timing vc = Inr signals \<and>
         (distinct (keys vc) \<longrightarrow> keys signals = keys vc)" by blast
  from timing_nonempty_returns(2)[OF ne] obtain s2 where s2: "calculate_adaptive_timing vc = Inr s2" ..
  have "distinct (keys vc) \<longrightarrow> keys s2 = keys vc"
  proof
    assume d: "distinct (keys vc)"
    from s2 show "keys s2 = keys vc"
      unfolding calculate_adaptive_timing_closed[OF d c] by (auto simp: keys_assignment)
  qed
  with s2 show "\<exists>signals. calculate_adaptive_timing vc = Inr signals \<and>
         (distinct (keys vc) \<longrightarrow> keys signals = keys vc)" by blast
qed

theorem timing_fails_only_on_empty_witness:
  "calculate_signal_timing [] = Inl ValueError \<and>
   calculate_adaptive_timing [] = Inl ValueError \<and>
   [(''X'', 3::int)] \<noteq> [] \<and> distinct (keys [(''X'', 3::int)]) \<and>
   (\<exists>signals. calculate_signal_timing [(''X'', 3)] = Inr signals \<and> keys signals = [''X'']) \<and>
   (\<exists>signals. calculate_adaptive_timing [(''X'', 3)] = Inr signals \<and> keys signals = [''X''])"
  using timing_fails_only_on_empty[of "[]"] timing_fails_only_on_empty[of "[(''X'', 3)]"]
  by (simp add: keys_def)

theorem timing_foreign_keys_counterexample:
  "calculate_signal_timing [(''X'', 3)]
     = Inr [(''X'', \<lparr>count = 3, signal = ''Green'', time = 15, priority = None\<rparr>)] \<and>
   calculate_adaptive_timing [(''laneA'', 7), (''laneB'', 2)]
     = Inr [(''laneA'', \<lparr>count = 7, signal = ''Green'', time = 20, priority = Some ''High''\<rparr>),
            (''laneB'', \<lparr>count = 2, signal = ''Red'', time = 15, priority = Some ''Low''\<rparr>)]"
  by (simp add: calculate_signal_timing_def calculate_adaptive_timing_def py_max_def
        dict_values_def keys_def count_of_def dict_get_def)

subsection \<open>Lane classification\<close>

lemma lane_order: "''A'' < ''B''" "''B'' < ''C''" "''C'' < ''D''" "''A'' < ''C''" "''A'' < ''D''" "''B'' < ''D''"
  by simp_all

lemma determine_lane4_config:
  "determine_lane4 x fw = Inr (get_lane_from_coordinates x fw)"
  by (simp add: determine_lane4_def determine_lane_def get_lane_from_coordinates_def
        LANE_COUNT_def Let_def)

lemma get_lane_range: "get_lane_from_coordinates x fw \<in> {''A'', ''B'', ''C'', ''D''}"
  by (simp add: get_lane_from_coordinates_def Let_def)

lemma get_lane_mono:
  assumes "0 \<le> fw" and "x \<le> y"
  shows "get_lane_from_coordinates x fw \<le> get_lane_from_coordinates y fw"
proof -
  let ?w = "fw div 4"
  from assms(1) have w: "0 \<le> real_of_int ?w" by (simp add: pos_imp_zdiv_nonneg_iff)
  consider "y < real_of_int ?w"
    | "\<not> y < real_of_int ?w" "y < real_of_int (?w * 2)"
    | "\<not> y < real_of_int (?w * 2)" "y < real_of_int (?w * 3)"
    | "\<not> y < real_of_int (?w * 3)" by linarith
  then show ?thesis
  proof cases
    case 1
    with assms(2) have "x < real_of_int ?w" by simp
    with 1 show ?thesis by (simp add: get_lane_from_coordinates_def LANE_COUNT_def Let_def)
  next
    case 2
    with assms(2) have "x < real_of_int (?w * 2)" by simp
    with 2 show ?thesis by (simp add: get_lane_from_coordinates_def LANE_COUNT_def Let_def)
  next
    case 3
    from 3(1) w have "\<not> y < real_of_int ?w" by simp
    moreover from assms(2) 3(2) have "x < real_of_int (?w * 3)" by simp
    ultimately show ?thesis using 3 by (simp add: get_lane_from_coordinates_def LANE_COUNT_def Let_def)
  next
    case 4
    from 4 w have "\<not> y < real_of_int ?w" "\<not> y < real_of_int (?w * 2)" by simp_all
    with 4 show ?thesis by (simp add: get_lane_from_coordinates_def LANE_COUNT_def Let_def)
  qed
qed


lemma boundary_lane:
  assumes "0 < fw"
  shows "get_lane_from_coordinates (real_of_int (fw div 4)) fw = (if 4 \<le> fw then ''B'' else ''D'')"
proof (cases "4 \<le> fw")
  case True
  then have "1 \<le> fw div 4" by (simp add: pos_le_divide_eq zdiv_mono1 int_div_pos_eq) 
  then have "real_of_int (fw div 4) < real_of_int (fw div 4 * 2)" by simp
  with True show ?thesis by (simp add: get_lane_from_coordinates_def LANE_COUNT_def Let_def)
next
  case False
  with assms have "fw div 4 = 0" by simp
  with False show ?thesis by (simp add: get_lane_from_coordinates_def LANE_COUNT_def Let_def)
qed

text \<open>
  Claim C5, as amended. For every positive frame width, \<^verbatim>\<open>determine_lane\<close> with its
  default four lanes (and \<^verbatim>\<open>Config.get_lane_from_coordinates\<close>, which computes the same)
  returns one of the lanes A, B, C, D for every coordinate, and a larger coordinate never
  gets an earlier lane. The coordinate equal to the lane width gets lane B when the frame
  is at least 4 wide; for widths 1, 2 and 3 the lane width is 0 and that coordinate gets
  lane D. It never gets lane A.
\<close>

theorem classify_total_monotone:
  assumes "0 < fw"
  shows "(\<exists>lane\<in>{''A'', ''B'', ''C'', ''D''}. determine_lane4 x fw = Inr lane) \<and>
         determine_lane4 x fw = Inr (get_lane_from_coordinates x fw) \<and>
         (x \<le> y \<longrightarrow>
            (\<exists>a b. determine_lane4 x fw = Inr a \<and> determine_lane4 y fw = Inr b \<and> a \<le> b)) \<and>
         determine_lane4 (real_of_int (fw div 4)) fw = Inr (if 4 \<le> fw then ''B'' else ''D'')"
proof -
  from assms have nn: "0 \<le> fw" by simp
  have "x \<le> y \<longrightarrow>
      (\<exists>a b. determine_lane4 x fw = Inr a \<and> determine_lane4 y fw = Inr b \<and> a \<le> b)"
    using get_lane_mono[OF nn, of x y] by (simp add: determine_lane4_config)
  moreover have "\<exists>lane\<in>{''A'', ''B'', ''C'', ''D''}. determine_lane4 x fw = Inr lane"
    using get_lane_range[of x fw] unfolding determine_lane4_config by blast
  ultimately show ?thesis
    using boundary_lane[OF assms] by (simp add: determine_lane4_config)
qed

theorem classify_total_monotone_witness:
  "(0::int) < 640 \<and> (100::real) \<le> 500 \<and>
   determine_lane4 100 640 = Inr ''A'' \<and> determine_lane4 500 640 = Inr ''D'' \<and>
   determine_lane4 (real_of_int (640 div 4)) 640 = Inr ''B''"
  using classify_total_monotone[of 640 100 500]
  by (simp add: determine_lane4_def determine_lane_def Let_def)

theorem classify_boundary_counterexample:
  "(0::int) < 3 \<and> determine_lane4 (real_of_int (3 div 4)) 3 = Inr ''D''"
  by (simp add: determine_lane4_def determine_lane_def Let_def)

text \<open>
  Claim C6, as amended. \<^verbatim>\<open>determine_lane\<close> fails exactly when the number of lanes is
  0, with the \<^verbatim>\<open>ZeroDivisionError\<close> of the floor division. For every other input, a
  frame width or a lane number below zero included, it returns one of the lanes A, B, C,
  D; \<^verbatim>\<open>Config.get_lane_from_coordinates\<close>, whose lane number is the constant 4, always
  returns a lane.
\<close>

theorem classify_fails_only_on_zero_lanes:
  "(n = 0 \<longrightarrow> determine_lane x fw n = Inl ZeroDivisionError) \<and>
   (n \<noteq> 0 \<longrightarrow> (\<exists>lane\<in>{''A'', ''B'', ''C'', ''D''}. determine_lane x fw n = Inr lane)) \<and>
   get_lane_from_coordinates x fw \<in> {''A'', ''B'', ''C'', ''D''}"
  using get_lane_range[of x fw] by (simp add: determine_lane_def Let_def)

theorem classify_fails_only_on_zero_lanes_witness:
  "determine_lane 5 8 0 = Inl ZeroDivisionError \<and>
   (4::int) \<noteq> 0 \<and> (\<exists>lane\<in>{''A'', ''B'', ''C'', ''D''}. determine_lane 5 0 4 = Inr lane) \<and>
   get_lane_from_coordinates 5 0 \<in> {''A'', ''B'', ''C'', ''D''}"
  using classify_fails_only_on_zero_lanes[of 0 5 8] classify_fails_only_on_zero_lanes[of 4 5 0]
  by simp

theorem classify_no_validation_counterexample:
  "determine_lane 5 0 4 = Inr ''D'' \<and>
   determine_lane (- 5) (- 8) 4 = Inr ''A'' \<and>
   determine_lane 5 8 (- 4) = Inr ''D'' \<and>
   get_lane_from_coordinates 5 0 = ''D''"
  by (simp add: determine_lane_def get_lane_from_coordinates_def LANE_COUNT_def Let_def)


subsection \<open>Dictionary updates\<close>

lemma keys_dict_set_present: "k \<in> set (keys d) \<Longrightarrow> keys (dict_set d k v) = keys d"
  by (induction d) (force simp: keys_def)+

lemma dict_get_dict_set_same: "dict_get (dict_set d k v) k = Some v"
  by (induction d) (auto simp: dict_get_def)

lemma map_dict_set:
  "map (\<lambda>(k, v). (k, h v)) (dict_set d k v) = dict_set (map (\<lambda>(k, v). (k, h v)) d) k (h v)"
  by (induction d) auto

lemma counts_of_closed:
  assumes "distinct (keys d)"
  shows "counts_of d = map (\<lambda>(lane, data). (lane, count data)) d"
proof -
  from assms have "distinct (map fst d)" by (simp add: keys_def)
  then have "fold (\<lambda>(k, v) s. dict_set s k (count v)) d [] = [] @ map (\<lambda>(k, v). (k, count v)) d"
    by (rule fold_dict_set_fresh) simp
  then show ?thesis by (simp add: counts_of_def)
qed

lemma keys_counts_of: "distinct (keys d) \<Longrightarrow> keys (counts_of d) = keys d"
  by (simp add: counts_of_closed) (simp add: keys_def case_prod_unfold comp_def)

lemma counts_of_dict_set:
  assumes d: "distinct (keys d)" and k: "k \<in> set (keys d)"
  shows "counts_of (dict_set d k (e\<lparr>count := c\<rparr>)) = dict_set (counts_of d) k c"
proof -
  have "distinct (keys (dict_set d k (e\<lparr>count := c\<rparr>)))"
    using d k by (simp add: keys_dict_set_present)
  then have "counts_of (dict_set d k (e\<lparr>count := c\<rparr>))
      = map (\<lambda>(lane, data). (lane, count data)) (dict_set d k (e\<lparr>count := c\<rparr>))"
    by (rule counts_of_closed)
  also have "\<dots> = dict_set (map (\<lambda>(lane, data). (lane, count data)) d) k (count (e\<lparr>count := c\<rparr>))"
    by (rule map_dict_set)
  finally show ?thesis using d by (simp add: counts_of_closed)
qed

lemma fold_dict_set_skip_head:
  "fst p \<notin> set (keys other) \<Longrightarrow>
   fold (\<lambda>(k, v) acc. dict_set acc k v) other (p # d)
   = p # fold (\<lambda>(k, v) acc. dict_set acc k v) other d"
proof (induction other arbitrary: d)
  case Nil
  show ?case by simp
next
  case (Cons q other)
  obtain k v where q: "q = (k, v)" by (cases q)
  obtain k' v' where p: "p = (k', v')" by (cases p)
  from Cons.prems have ne: "k' \<noteq> k" and rest: "fst p \<notin> set (keys other)"
    by (auto simp: q p keys_def)
  have "fold (\<lambda>(k, v) acc. dict_set acc k v) (q # other) (p # d)
        = fold (\<lambda>(k, v) acc. dict_set acc k v) other (p # dict_set d k v)"
    using ne by (simp add: q p)
  also have "\<dots> = p # fold (\<lambda>(k, v) acc. dict_set acc k v) other (dict_set d k v)"
    using rest by (rule Cons.IH)
  finally show ?case by (simp add: q)
qed

lemma dict_update_same_keys:
  "distinct (keys other) \<Longrightarrow> keys d = keys other \<Longrightarrow> dict_update d other = other"
proof (induction other arbitrary: d)
  case Nil
  then show ?case by (simp add: dict_update_def keys_def)
next
  case (Cons q other)
  obtain k v where q: "q = (k, v)" by (cases q)
  from Cons.prems(2) obtain v0 d' where d: "d = (k, v0) # d'" and kd: "keys d' = keys other"
    by (cases d) (auto simp: q keys_def)
  from Cons.prems(1) have fresh: "fst (k, v) \<notin> set (keys other)" and dist: "distinct (keys other)"
    by (auto simp: q keys_def)
  have "dict_update d (q # other) = fold (\<lambda>(k, v) acc. dict_set acc k v) other ((k, v) # d')"
    by (simp add: dict_update_def q d)
  also have "\<dots> = (k, v) # fold (\<lambda>(k, v) acc. dict_set acc k v) other d'"
    using fresh by (rule fold_dict_set_skip_head)
  also have "fold (\<lambda>(k, v) acc. dict_set acc k v) other d' = other"
    using Cons.IH[OF dist kd] by (simp add: dict_update_def)
  finally show ?case by (simp add: q)
qed

lemma dict_get_none_iff: "dict_get d k = None \<longleftrightarrow> k \<notin> set (keys d)"
  by (simp add: dict_get_def keys_def map_of_eq_None_iff)

lemma dict_get_assignment:
  "dict_get (assignment g gt prio vc) k =
     map_option (\<lambda>cnt. \<lparr>count = cnt, signal = (if k = g then ''Green'' else ''Red''),
                        time = (if k = g then gt else 15), priority = prio (k = g)\<rparr>)
       (dict_get vc k)"
  by (induction vc) (auto simp: assignment_def dict_get_def)

subsection \<open>The timing on values and on integers\<close>

lemma py_gt_ints: "py_gt (JInt a) (JInt b) = Inr (a > b)"
  by (simp add: py_gt.simps)

lemma py_gt_null: "py_gt a JNull = Inl TypeError"
  by (cases "number a") (simp_all add: py_gt.simps split: json.split)

lemma max_first_json_ints:
  "(\<forall>x\<in>set (b # xs). f x = JInt (g x)) \<Longrightarrow> max_first_json f b xs = Inr (max_first g b xs)"
proof (induction xs arbitrary: b)
  case Nil
  show ?case by simp
next
  case (Cons y ys)
  from Cons.prems have fy: "f y = JInt (g y)" and fb: "f b = JInt (g b)" by simp_all
  have "\<forall>x\<in>set ((if g y > g b then y else b) # ys). f x = JInt (g x)"
    using Cons.prems by simp
  then have "max_first_json f (if g y > g b then y else b) ys
             = Inr (max_first g (if g y > g b then y else b) ys)" by (rule Cons.IH)
  then show ?case by (simp add: fy fb py_gt_ints)
qed

lemma keys_int_counts: "keys (int_counts vc) = keys vc"
  by (simp add: int_counts_def keys_def case_prod_unfold comp_def)

lemma dict_get_int_counts: "dict_get (int_counts vc) k = map_option JInt (dict_get vc k)"
  by (induction vc) (auto simp: int_counts_def dict_get_def)

lemma value_of_int_counts:
  assumes "k \<in> set (keys vc)"
  shows "value_of (int_counts vc) k = JInt (count_of vc k)"
proof -
  from key_has_value[OF assms] obtain c where "(k, c) \<in> set vc" ..
  then have "dict_get vc k \<noteq> None"
    by (simp add: dict_get_def map_of_eq_None_iff) (force)
  then obtain c' where "dict_get vc k = Some c'" by auto
  then show ?thesis by (simp add: value_of_def count_of_def dict_get_int_counts)
qed

lemma green_time_json_int: "green_time_json (JInt m) = Inr (get_signal_timing m)"
  by (simp add: green_time_json_def get_signal_timing_def BASE_GREEN_TIME_def
        MAX_GREEN_TIME_def Let_def py_gt_ints)

lemma stored_signals_dict_set:
  "stored_signals (dict_set acc k d) = dict_set (stored_signals acc) k (stored d)"
  by (induction acc) (auto simp: stored_signals_def)

lemma keys_stored_signals: "keys (stored_signals signals) = keys signals"
  by (simp add: stored_signals_def keys_def case_prod_unfold comp_def)

lemma fold_commutes:
  assumes "\<And>x acc. fJ (h x) (S acc) = S (fI x acc)"
  shows "fold fJ (map h xs) (S acc) = S (fold fI xs acc)"
  by (induction xs arbitrary: acc) (simp_all add: assms)

lemma fill_loop_stored:
  "fold (\<lambda>(lane, cnt) signals.
           if lane = g
           then dict_set signals lane
                  \<lparr>count = cnt, signal = ''Green'', time = gt, priority = None\<rparr>
           else dict_set signals lane
                  \<lparr>count = cnt, signal = ''Red'', time = 15, priority = None\<rparr>)
      (int_counts vc) []
   = stored_signals
       (fold (\<lambda>(lane, cnt) signals.
           if lane = g
           then dict_set signals lane
                  \<lparr>count = cnt, signal = ''Green'', time = gt, priority = None\<rparr>
           else dict_set signals lane
                  \<lparr>count = cnt, signal = ''Red'', time = 15, priority = None\<rparr>)
         vc [])"
proof -
  have "fold (\<lambda>(lane, cnt) signals.
           if lane = g
           then dict_set signals lane
                  \<lparr>count = cnt, signal = ''Green'', time = gt, priority = None\<rparr>
           else dict_set signals lane
                  \<lparr>count = cnt, signal = ''Red'', time = 15, priority = None\<rparr>)
      (map (\<lambda>(lane, c). (lane, JInt c)) vc) (stored_signals [])
   = stored_signals
       (fold (\<lambda>(lane, cnt) signals.
           if lane = g
           then dict_set signals lane
                  \<lparr>count = cnt, signal = ''Green'', time = gt, priority = None\<rparr>
           else dict_set signals lane
                  \<lparr>count = cnt, signal = ''Red'', time = 15, priority = None\<rparr>)
         vc [])"
    by (rule fold_commutes) (auto simp: stored_signals_dict_set stored_def)
  then show ?thesis by (simp add: int_counts_def stored_signals_def)
qed

lemma max_first_json_map_ints:
  "max_first_json id (JInt b) (map JInt cs) = Inr (JInt (max_first id b cs))"
proof (induction cs arbitrary: b)
  case Nil
  show ?case by simp
next
  case (Cons c cs)
  show ?case using Cons.IH[of c] Cons.IH[of b] by (simp add: py_gt_ints)
qed

text \<open>On integer counts the timing on values is the timing on integers.\<close>

lemma timing_json_on_ints:
  "calculate_signal_timing_json (int_counts vc)
   = (case calculate_signal_timing vc of
        Inl e \<Rightarrow> Inl e
      | Inr signals \<Rightarrow> Inr (stored_signals signals))"
proof (cases vc)
  case Nil
  then show ?thesis
    by (simp add: calculate_signal_timing_json_def calculate_signal_timing_def py_max_json_def
          py_max_def dict_values_def keys_def int_counts_def)
next
  case (Cons p rest)
  obtain k0 c0 where p: "p = (k0, c0)" by (cases p)
  define m where "m = max_first id c0 (dict_values rest)"
  define g where "g = max_first (count_of vc) k0 (keys rest)"
  have vals: "dict_values (int_counts vc) = JInt c0 # map JInt (dict_values rest)"
    by (simp add: int_counts_def dict_values_def Cons p case_prod_unfold comp_def)
  have ks: "keys (int_counts vc) = k0 # keys rest"
    unfolding keys_int_counts by (simp add: Cons p keys_def)
  have ks': "keys vc = k0 # keys rest" by (simp add: Cons p keys_def)
  have vs': "dict_values vc = c0 # dict_values rest" by (simp add: Cons p dict_values_def)
  have m1: "py_max_json id (dict_values (int_counts vc)) = Inr (JInt m)"
    unfolding vals m_def by (simp add: py_max_json_def max_first_json_map_ints)
  have "\<forall>x\<in>set (k0 # keys rest). value_of (int_counts vc) x = JInt (count_of vc x)"
    using value_of_int_counts[of _ vc] unfolding ks' by blast
  then have "max_first_json (value_of (int_counts vc)) k0 (keys rest) = Inr g"
    unfolding g_def by (rule max_first_json_ints)
  then have m2: "py_max_json (value_of (int_counts vc)) (keys (int_counts vc)) = Inr g"
    unfolding ks by (simp add: py_max_json_def)
  have lhs: "calculate_signal_timing_json (int_counts vc)
      = Inr (fold (\<lambda>(lane, cnt) signals.
                     if lane = g
                     then dict_set signals lane
                            \<lparr>count = cnt, signal = ''Green'', time = get_signal_timing m, priority = None\<rparr>
                     else dict_set signals lane
                            \<lparr>count = cnt, signal = ''Red'', time = 15, priority = None\<rparr>)
                   (int_counts vc) [])"
    by (simp only: calculate_signal_timing_json_def m1 m2 green_time_json_int sum.case)
  have rhs: "calculate_signal_timing vc
      = Inr (fold (\<lambda>(lane, cnt) signals.
                     if lane = g
                     then dict_set signals lane
                            \<lparr>count = cnt, signal = ''Green'', time = get_signal_timing m, priority = None\<rparr>
                     else dict_set signals lane
                            \<lparr>count = cnt, signal = ''Red'', time = 15, priority = None\<rparr>)
                   vc [])"
    unfolding m_def g_def
    by (simp only: calculate_signal_timing_def py_max_def ks' vs' list.case sum.case Let_def
          green_time_steps)
  show ?thesis unfolding lhs rhs by (simp only: sum.case fill_loop_stored)
qed

lemma timing_json_keys:
  assumes d: "distinct (keys vc)" and r: "calculate_signal_timing_json vc = Inr signals"
  shows "keys signals = keys vc"
proof -
  from r obtain g gt where
    "signals = fold (\<lambda>(lane, cnt) signals.
                     if lane = g
                     then dict_set signals lane
                            \<lparr>count = cnt, signal = ''Green'', time = gt, priority = None\<rparr>
                     else dict_set signals lane
                            \<lparr>count = cnt, signal = ''Red'', time = 15, priority = None\<rparr>)
                   vc []"
    by (auto simp: calculate_signal_timing_json_def split: sum.splits)
  then have "signals = assignment g gt (\<lambda>_. None) vc"
    using fill_loop_closed[OF d, of g gt "\<lambda>_. None"] by (simp only:)
  then show ?thesis by (simp add: keys_assignment)
qed

lemma int_counts_dict_set:
  "dict_set (int_counts vc) k (JInt c) = int_counts (dict_set vc k c)"
  by (induction vc) (auto simp: int_counts_def)

subsection \<open>simulate_traffic\<close>

text \<open>
  A request for a lane the state holds: the count is stored, the timing runs on the
  counts of the state with that count, and its result, if it returns one, is the new
  state.
\<close>

lemma simulate_valid_lane:
  assumes d: "distinct (keys (current_video_data s))"
    and k: "''lane'' @ lane \<in> set (keys (current_video_data s))"
  shows "\<exists>entry. dict_get (current_video_data s) (''lane'' @ lane) = Some entry \<and>
           simulate_traffic rnd (Some \<lparr>lane_field = Some lane, count_field = Some cnt\<rparr>) s
           = (case calculate_signal_timing_json
                     (dict_set (counts_of (current_video_data s)) (''lane'' @ lane) cnt) of
                Inl e \<Rightarrow>
                  (SimulateCrashed e,
                   s\<lparr>current_video_data :=
                       dict_set (current_video_data s) (''lane'' @ lane) (entry\<lparr>count := cnt\<rparr>)\<rparr>)
              | Inr signals \<Rightarrow> (Updated lane cnt signals, s\<lparr>current_video_data := signals\<rparr>))"
proof -
  define key where "key = ''lane'' @ lane"
  let ?d = "current_video_data s"
  from k have k': "key \<in> set (keys ?d)" by (simp only: key_def)
  then obtain entry where e: "dict_get ?d key = Some entry"
    using dict_get_none_iff[of ?d key] by auto
  let ?d1 = "dict_set ?d key (entry\<lparr>count := cnt\<rparr>)"
  let ?vc = "dict_set (counts_of ?d) key cnt"
  have vc: "counts_of ?d1 = ?vc" using d k' by (rule counts_of_dict_set)
  have kvc: "keys ?vc = keys ?d"
    using d k' by (simp add: keys_dict_set_present keys_counts_of)
  with d have dvc: "distinct (keys ?vc)" by simp
  have kd1: "keys ?d1 = keys ?d" using k' by (rule keys_dict_set_present)
  have run: "simulate_traffic rnd (Some \<lparr>lane_field = Some lane, count_field = Some cnt\<rparr>) s
           = (case calculate_signal_timing_json ?vc of
                Inl e \<Rightarrow> (SimulateCrashed e, s\<lparr>current_video_data := ?d1\<rparr>)
              | Inr signals \<Rightarrow> (Updated lane cnt signals, s\<lparr>current_video_data := signals\<rparr>))"
  proof (cases "calculate_signal_timing_json ?vc")
    case (Inl x)
    then show ?thesis
      by (simp only: simulate_traffic_def Let_def option.case simulate_body.simps
            key_def[symmetric] e vc sum.case)
  next
    case (Inr signals)
    from timing_json_keys[OF dvc Inr] kvc have ks: "keys signals = keys ?d" by simp
    have upd: "dict_update ?d1 signals = signals"
      using d ks kd1 by (intro dict_update_same_keys) simp_all
    show ?thesis
      by (simp only: simulate_traffic_def Let_def option.case simulate_body.simps
            key_def[symmetric] e vc Inr upd sum.case)
  qed
  from e run show ?thesis unfolding key_def by blast
qed

text \<open>
  Claim C9, as amended. From every current signal state that holds lane B (a dict, so
  with distinct keys) and whose stored counts are all integers, \<^verbatim>\<open>simulate('B', 18)\<close>
  succeeds, and \<^verbatim>\<open>get_traffic_data\<close> then returns a state in which lane B's count is 18
  and which is, as a whole, the result of \<^verbatim>\<open>calculate_signal_timing\<close> on the count mapping
  of the state with lane B set to 18.
\<close>

theorem simulate_round_trip:
  assumes "distinct (keys (current_video_data s))"
    and "''laneB'' \<in> set (keys (current_video_data s))"
    and "counts_of (current_video_data s) = int_counts vc"
  shows "\<exists>response s' data signals.
           simulate_traffic rnd (Some \<lparr>lane_field = Some ''B'', count_field = Some (JInt 18)\<rparr>) s
             = (response, s') \<and>
           simulate_success response \<and>
           get_traffic_data now s' = (True, data, now) \<and>
           map_option count (dict_get data ''laneB'') = Some (JInt 18) \<and>
           calculate_signal_timing (dict_set vc ''laneB'' 18) = Inr signals \<and>
           data = stored_signals signals"
proof -
  from assms(2) have k: "''lane'' @ ''B'' \<in> set (keys (current_video_data s))" by simp
  have kv: "keys vc = keys (current_video_data s)"
    using keys_counts_of[OF assms(1)] keys_int_counts[of vc] assms(3) by simp
  with assms(2) have kB: "''laneB'' \<in> set (keys vc)" by simp
  let ?vc = "dict_set vc ''laneB'' 18"
  have kvc: "keys ?vc = keys vc" using kB by (rule keys_dict_set_present)
  with kv assms(1) have dvc: "distinct (keys ?vc)" by simp
  from kB kvc have "?vc \<noteq> []" by (auto simp: keys_def)
  then obtain k0 c0 rest where ne: "?vc = (k0, c0) # rest" by (cases ?vc) auto
  define signals where
    "signals = assignment (max_first (count_of ?vc) k0 (keys rest))
       (get_signal_timing (count_of ?vc (max_first (count_of ?vc) k0 (keys rest))))
       (\<lambda>_. None) ?vc"
  have cl: "calculate_signal_timing ?vc = Inr signals"
    unfolding signals_def using dvc ne by (rule calculate_signal_timing_closed)
  have tj: "calculate_signal_timing_json
              (dict_set (counts_of (current_video_data s)) (''lane'' @ ''B'') (JInt 18))
            = Inr (stored_signals signals)"
    by (simp add: assms(3) int_counts_dict_set timing_json_on_ints cl)
  from simulate_valid_lane[OF assms(1) k, of rnd "JInt 18"]
  have run: "simulate_traffic rnd (Some \<lparr>lane_field = Some ''B'', count_field = Some (JInt 18)\<rparr>) s
             = (Updated ''B'' (JInt 18) (stored_signals signals),
                s\<lparr>current_video_data := stored_signals signals\<rparr>)"
    unfolding tj by auto
  have "dict_get ?vc ''laneB'' = Some 18" by (rule dict_get_dict_set_same)
  then have "map_option count (dict_get signals ''laneB'') = Some 18"
    by (simp add: signals_def dict_get_assignment)
  moreover have "dict_get (stored_signals signals) ''laneB''
                 = map_option stored (dict_get signals ''laneB'')"
    by (induction signals) (auto simp: stored_signals_def dict_get_def)
  ultimately have cnt: "map_option count (dict_get (stored_signals signals) ''laneB'') = Some (JInt 18)"
    by (auto simp: stored_def)
  have "get_traffic_data now (s\<lparr>current_video_data := stored_signals signals\<rparr>)
        = (True, stored_signals signals, now)"
    by (simp add: get_traffic_data_def)
  moreover have "simulate_success (Updated ''B'' (JInt 18) (stored_signals signals))" by simp
  ultimately show ?thesis using run cnt cl by blast
qed

theorem simulate_round_trip_witness:
  "distinct (keys (current_video_data initial_state)) \<and>
   ''laneB'' \<in> set (keys (current_video_data initial_state)) \<and>
   counts_of (current_video_data initial_state)
     = int_counts [(''laneA'', 0), (''laneB'', 0), (''laneC'', 0), (''laneD'', 0)] \<and>
   (\<exists>response s' data signals.
      simulate_traffic 7 (Some \<lparr>lane_field = Some ''B'', count_field = Some (JInt 18)\<rparr>)
        initial_state = (response, s') \<and>
      simulate_success response \<and>
      get_traffic_data ''2024-01-01T12:00:00'' s' = (True, data, ''2024-01-01T12:00:00'') \<and>
      map_option count (dict_get data ''laneB'') = Some (JInt 18) \<and>
      calculate_signal_timing [(''laneA'', 0), (''laneB'', 18), (''laneC'', 0), (''laneD'', 0)]
        = Inr signals \<and>
      data = stored_signals signals)"
proof -
  have h1: "distinct (keys (current_video_data initial_state))"
    by (simp add: initial_state_def initial_video_data_def keys_def)
  have h2: "''laneB'' \<in> set (keys (current_video_data initial_state))"
    by (simp add: initial_state_def initial_video_data_def keys_def)
  have h3: "counts_of (current_video_data initial_state)
     = int_counts [(''laneA'', 0), (''laneB'', 0), (''laneC'', 0), (''laneD'', 0)]"
    by (simp add: initial_state_def initial_video_data_def counts_of_def int_counts_def)
  have c: "dict_set [(''laneA'', 0), (''laneB'', 0), (''laneC'', 0), (''laneD'', 0)] ''laneB'' 18
           = [(''laneA'', 0), (''laneB'', 18::int), (''laneC'', 0), (''laneD'', 0)]"
    by simp
  show ?thesis
    using h1 h2 h3 simulate_round_trip[OF h1 h2 h3, of 7 "''2024-01-01T12:00:00''"]
    unfolding c by blast
qed

lemma simulate_from_initial_state:
  "simulate_traffic 7 (Some \<lparr>lane_field = Some ''B'', count_field = Some (JInt 18)\<rparr>) initial_state
   = (Updated ''B'' (JInt 18)
        [(''laneA'', \<lparr>count = JInt 0, signal = ''Red'', time = 15, priority = None\<rparr>),
         (''laneB'', \<lparr>count = JInt 18, signal = ''Green'', time = 30, priority = None\<rparr>),
         (''laneC'', \<lparr>count = JInt 0, signal = ''Red'', time = 15, priority = None\<rparr>),
         (''laneD'', \<lparr>count = JInt 0, signal = ''Red'', time = 15, priority = None\<rparr>)],
      initial_state\<lparr>current_video_data :=
        [(''laneA'', \<lparr>count = JInt 0, signal = ''Red'', time = 15, priority = None\<rparr>),
         (''laneB'', \<lparr>count = JInt 18, signal = ''Green'', time = 30, priority = None\<rparr>),
         (''laneC'', \<lparr>count = JInt 0, signal = ''Red'', time = 15, priority = None\<rparr>),
         (''laneD'', \<lparr>count = JInt 0, signal = ''Red'', time = 15, priority = None\<rparr>)]\<rparr>)"
  by (simp add: simulate_traffic_def initial_state_def initial_video_data_def dict_get_def
        counts_of_def calculate_signal_timing_json_def py_max_json_def dict_values_def keys_def
        value_of_def dict_update_def green_time_json_def py_gt_ints Let_def)

text \<open>
  A state over the lanes A, B, C, D in which the claim fails. The request
  \<^verbatim>\<open>{'lane': 'A', 'count': null}\<close> on the initial state stores \<^verbatim>\<open>None\<close> as lane A's count
  and then fails in the timing. From the state it leaves, \<^verbatim>\<open>simulate('B', 18)\<close> stores 18
  and fails in the same way: the answer is the failure of the \<^verbatim>\<open>except\<close> branch, lane B
  stays Red for 15 seconds with count 18, and the timing of the updated count mapping is
  no signal state but a \<^verbatim>\<open>TypeError\<close>.
\<close>

theorem simulate_round_trip_counterexample:
  "simulate_traffic 7 (Some \<lparr>lane_field = Some ''A'', count_field = Some JNull\<rparr>) initial_state
   = (SimulateCrashed TypeError,
      initial_state\<lparr>current_video_data :=
        [(''laneA'', \<lparr>count = JNull, signal = ''Red'', time = 15, priority = None\<rparr>),
         (''laneB'', \<lparr>count = JInt 0, signal = ''Red'', time = 15, priority = None\<rparr>),
         (''laneC'', \<lparr>count = JInt 0, signal = ''Red'', time = 15, priority = None\<rparr>),
         (''laneD'', \<lparr>count = JInt 0, signal = ''Red'', time = 15, priority = None\<rparr>)]\<rparr>) \<and>
   simulate_traffic 7 (Some \<lparr>lane_field = Some ''B'', count_field = Some (JInt 18)\<rparr>)
     (initial_state\<lparr>current_video_data :=
        [(''laneA'', \<lparr>count = JNull, signal = ''Red'', time = 15, priority = None\<rparr>),
         (''laneB'', \<lparr>count = JInt 0, signal = ''Red'', time = 15, priority = None\<rparr>),
         (''laneC'', \<lparr>count = JInt 0, signal = ''Red'', time = 15, priority = None\<rparr>),
         (''laneD'', \<lparr>count = JInt 0, signal = ''Red'', time = 15, priority = None\<rparr>)]\<rparr>)
   = (SimulateCrashed TypeError,
      initial_state\<lparr>current_video_data :=
        [(''laneA'', \<lparr>count = JNull, signal = ''Red'', time = 15, priority = None\<rparr>),
         (''laneB'', \<lparr>count = JInt 18, signal = ''Red'', time = 15, priority = None\<rparr>),
         (''laneC'', \<lparr>count = JInt 0, signal = ''Red'', time = 15, priority = None\<rparr>),
         (''laneD'', \<lparr>count = JInt 0, signal = ''Red'', time = 15, priority = None\<rparr>)]\<rparr>) \<and>
   calculate_signal_timing_json
     [(''laneA'', JNull), (''laneB'', JInt 18), (''laneC'', JInt 0), (''laneD'', JInt 0)]
   = Inl TypeError"
  by (simp add: simulate_traffic_def initial_state_def initial_video_data_def dict_get_def
        counts_of_def calculate_signal_timing_json_def py_max_json_def dict_values_def keys_def
        py_gt_null Let_def)

text \<open>
  Claim C10. When the current signal state holds the lanes A, B, C, D, a simulate request
  for any other lane identifier, with any count or none, is answered with the failure
  result (HTTP 400) and leaves the whole state as it was.
\<close>

theorem simulate_invalid_lane:
  assumes "set (keys (current_video_data s)) = {''laneA'', ''laneB'', ''laneC'', ''laneD''}"
    and "lane \<notin> {''A'', ''B'', ''C'', ''D''}"
  shows "simulate_traffic rnd (Some \<lparr>lane_field = Some lane, count_field = c\<rparr>) s
           = (InvalidLane lane, s) \<and>
         \<not> simulate_success (InvalidLane lane) \<and>
         simulate_http_status (InvalidLane lane) = 400"
proof -
  from assms have "''lane'' @ lane \<notin> set (keys (current_video_data s))" by simp
  then have "dict_get (current_video_data s) (''lane'' @ lane) = None"
    by (simp add: dict_get_none_iff)
  then show ?thesis
    by (simp add: simulate_traffic_def Let_def)
qed

theorem simulate_invalid_lane_witness:
  "set (keys (current_video_data initial_state)) = {''laneA'', ''laneB'', ''laneC'', ''laneD''} \<and>
   ''E'' \<notin> {''A'', ''B'', ''C'', ''D''} \<and>
   simulate_traffic 7 (Some \<lparr>lane_field = Some ''E'', count_field = Some (JInt 5)\<rparr>) initial_state
     = (InvalidLane ''E'', initial_state) \<and>
   \<not> simulate_success (InvalidLane ''E'') \<and>
   simulate_http_status (InvalidLane ''E'') = 400"
proof -
  have h1: "set (keys (current_video_data initial_state))
            = {''laneA'', ''laneB'', ''laneC'', ''laneD''}"
    by (simp add: initial_state_def initial_video_data_def keys_def)
  have h2: "''E'' \<notin> {''A'', ''B'', ''C'', ''D''}" by simp
  show ?thesis
    using h1 h2 simulate_invalid_lane[OF h1 h2, of 7 "Some (JInt 5)"] by blast
qed

subsection \<open>process_video\<close>

lemma allowed_clip: "allowed_file ''clip.mp4''"
  by (simp add: allowed_file_def after_last_dot_def lower_def lower_char_def ALLOWED_EXTENSIONS_def)

lemma allowed_first: "allowed_file ''first.mp4''"
  by (simp add: allowed_file_def after_last_dot_def lower_def lower_char_def ALLOWED_EXTENSIONS_def)

lemma dummy_progress_100: "dummy_progress p = 100"
  by (simp add: dummy_progress_def upt_rec)

text \<open>The progress that the frame loop finds has no influence on its result.\<close>

lemma process_frames_ignores_progress:
  "fst (process_frames n frs (st\<lparr>progress_global := q\<rparr>)) = fst (process_frames n frs st) \<and>
   vehicle_counts (snd (process_frames n frs (st\<lparr>progress_global := q\<rparr>)))
     = vehicle_counts (snd (process_frames n frs st)) \<and>
   frame_count (snd (process_frames n frs (st\<lparr>progress_global := q\<rparr>)))
     = frame_count (snd (process_frames n frs st))"
  by (cases frs) (simp_all add: Let_def)

lemma yolo_result_ignores_progress:
  "fst (process_video_yolo ya rnd src p) = fst (process_video_yolo ya rnd src 0)"
proof -
  let ?st = "\<lparr>frame_count = 0,
              vehicle_counts = [(''laneA'', 0), (''laneB'', 0), (''laneC'', 0), (''laneD'', 0)],
              frame_width_local = None,
              progress_global = 0\<rparr>"
  have st: "\<lparr>frame_count = 0,
              vehicle_counts = [(''laneA'', 0), (''laneB'', 0), (''laneC'', 0), (''laneD'', 0)],
              frame_width_local = None,
              progress_global = p\<rparr> = ?st\<lparr>progress_global := p\<rparr>" by simp
  obtain e1 st1 where r1: "process_frames (total_frames src) (frames src) (?st\<lparr>progress_global := p\<rparr>) = (e1, st1)"
    by (cases "process_frames (total_frames src) (frames src) (?st\<lparr>progress_global := p\<rparr>)")
  obtain e0 st0 where r0: "process_frames (total_frames src) (frames src) ?st = (e0, st0)"
    by (cases "process_frames (total_frames src) (frames src) ?st")
  from process_frames_ignores_progress[where n = "total_frames src" and frs = "frames src"
         and st = ?st and q = p] r1 r0
  have eq: "e1 = e0" "vehicle_counts st1 = vehicle_counts st0" "frame_count st1 = frame_count st0"
    by simp_all
  show ?thesis
    unfolding process_video_yolo_def st r1
    by (simp add: r0 eq split: option.split sum.split)
qed

lemma job_result:
  "fst (if YOLO_AVAILABLE env
        then process_video_yolo (YOLO_AVAILABLE env) (randint env) (video env) p
        else process_video_dummy (randint env)) = pipeline_result_of env"
  by (simp add: pipeline_result_of_def yolo_result_ignores_progress[of _ _ _ p])

text \<open>The second piece of \<^verbatim>\<open>process_video\<close>, from any state.\<close>

lemma process_video_job_eq:
  "process_video_job env video_path s' =
     (if video_path \<in> files s' \<and> remove_raises env
      then (Crashed OSError,
            s'\<lparr>current_video_data :=
                 (if success (pipeline_result_of env)
                  then stored_signals (result_signals (pipeline_result_of env))
                  else current_video_data s'),
               processing_status := \<lparr>status = ''error'', progress = 100\<rparr>\<rparr>)
      else (Processed (pipeline_result_of env),
            s'\<lparr>current_video_data :=
                 (if success (pipeline_result_of env)
                  then stored_signals (result_signals (pipeline_result_of env))
                  else current_video_data s'),
               processing_status := \<lparr>status = ''completed'', progress = 100\<rparr>,
               files := files s' - {video_path}\<rparr>))"
proof -
  obtain result p where rp: "(if YOLO_AVAILABLE env
        then process_video_yolo (YOLO_AVAILABLE env) (randint env) (video env)
               (progress (processing_status s'))
        else process_video_dummy (randint env)) = (result, p)"
    by (cases "if YOLO_AVAILABLE env
        then process_video_yolo (YOLO_AVAILABLE env) (randint env) (video env)
               (progress (processing_status s'))
        else process_video_dummy (randint env)")
  from job_result[of env "progress (processing_status s')"] rp
  have r: "result = pipeline_result_of env" by simp
  show ?thesis
    unfolding process_video_job_def rp
    by (simp add: r process_video_except_def Let_def)
qed

lemma process_video_phases:
  "process_video env request s =
     (case process_video_accept env request s of
        (Inl response, s') \<Rightarrow> (response, s')
      | (Inr video_path, s') \<Rightarrow> process_video_job env video_path s')"
  by (simp add: process_video_def process_video_accept_def process_video_job_def
        process_video_except_def Let_def split: option.split save_result.split)

lemma process_video_accept_saved:
  assumes "filename \<noteq> []" and "allowed_file filename" and "save_outcome env = Saved"
  shows "process_video_accept env (Some filename) s
         = (Inr (video_path_of env filename),
            s\<lparr>files := insert (video_path_of env filename) (files s),
              processing_status := \<lparr>status = ''processing'', progress = 0\<rparr>\<rparr>)"
  using assms by (simp add: process_video_accept_def Let_def)

text \<open>The path of \<^verbatim>\<open>process_video\<close> on which the upload is accepted and saved.\<close>

lemma process_video_saved:
  assumes "filename \<noteq> []" and "allowed_file filename" and "save_outcome env = Saved"
  shows "process_video env (Some filename) s =
     (let result = pipeline_result_of env;
          s5 = s\<lparr>current_video_data :=
                    (if success result then stored_signals (result_signals result)
                     else current_video_data s),
                  processing_status := \<lparr>status = ''completed'', progress = 100\<rparr>,
                  files := insert (video_path_of env filename) (files s)\<rparr>
      in if remove_raises env
         then (Crashed OSError, s5\<lparr>processing_status := \<lparr>status = ''error'', progress = 100\<rparr>\<rparr>)
         else (Processed result, s5\<lparr>files := files s - {video_path_of env filename}\<rparr>))"
  unfolding process_video_phases process_video_accept_saved[OF assms]
  by (simp add: process_video_job_eq Let_def)

lemma process_video_save_raises:
  assumes "filename \<noteq> []" and "allowed_file filename" and "save_outcome env = SaveRaises partial"
  shows "process_video env (Some filename) s =
     (Crashed OSError,
      s\<lparr>processing_status := (processing_status s)\<lparr>status := ''error''\<rparr>,
        files := (if partial then insert (video_path_of env filename) (files s) else files s)\<rparr>)"
  using assms
  by (simp add: process_video_def process_video_except_def Let_def)

lemma process_video_rejected:
  "process_video env None s = (Rejected ''No video file provided'' 400, s)"
  "process_video env (Some []) s = (Rejected ''No file selected'' 400, s)"
  "filename \<noteq> [] \<Longrightarrow> \<not> allowed_file filename \<Longrightarrow>
     process_video env (Some filename) s
     = (Rejected ''Invalid file type. Allowed: mp4, avi, mov, mkv'' 400, s)"
  by (simp_all add: process_video_def)

text \<open>An unsuccessful result never changes the published signal state.\<close>

lemma failure_keeps_signal_state:
  assumes "filename \<noteq> []" and "allowed_file filename" and "save_outcome env = Saved"
    and "\<not> success (pipeline_result_of env)"
  shows "current_video_data (snd (process_video env (Some filename) s)) = current_video_data s"
  using assms by (simp add: process_video_saved Let_def)

text \<open>The upload is gone after every request that does not end in the exception handler.\<close>

lemma upload_removed_unless_crashed:
  assumes "filename \<noteq> []" and "allowed_file filename" and "save_outcome env = Saved"
    and "\<not> remove_raises env"
  shows "video_path_of env filename \<notin> files (snd (process_video env (Some filename) s))"
  using assms by (simp add: process_video_saved Let_def)

text \<open>The response never depends on the status that the request finds.\<close>

lemma process_video_ignores_status:
  "fst (process_video env request (s\<lparr>processing_status := ps\<rparr>)) = fst (process_video env request s)"
proof -
  consider "request = None" | "request = Some []"
    | fn where "request = Some fn" "fn \<noteq> []" "\<not> allowed_file fn"
    | fn where "request = Some fn" "fn \<noteq> []" "allowed_file fn" "save_outcome env = Saved"
    | fn partial where "request = Some fn" "fn \<noteq> []" "allowed_file fn"
        "save_outcome env = SaveRaises partial"
    by (cases request; cases "save_outcome env") auto
  then show ?thesis
  proof cases
    case 1 then show ?thesis by (simp add: process_video_rejected)
  next
    case 2 then show ?thesis by (simp add: process_video_rejected)
  next
    case 3 then show ?thesis by (simp add: process_video_rejected)
  next
    case 4 then show ?thesis by (simp add: process_video_saved Let_def)
  next
    case 5 then show ?thesis by (simp add: process_video_save_raises)
  qed
qed

text \<open>
  Claim C8, as amended. \<^verbatim>\<open>process_video\<close> never reads \<^verbatim>\<open>processing_status\<close>: its response
  is the same whatever status the request meets, and there is no policy error. A
  submission that arrives while the status is \<^verbatim>\<open>processing\<close>, and whose upload is accepted
  and saved, is taken on: the status is reset to \<^verbatim>\<open>processing\<close> with progress 0 and a
  second job starts. When that job ends, from whatever state the other handlers have left
  by then, it publishes a successful result as the current signal state and overwrites
  the status with \<^verbatim>\<open>completed\<close> and progress 100; only when the upload is still on disk
  and \<^verbatim>\<open>os.remove\<close> raises does it answer with the exception and leave the status
  \<^verbatim>\<open>error\<close>. Run without interruption, the handler is the first piece followed by the
  second.
\<close>

theorem submission_during_processing:
  assumes "filename \<noteq> []" and "allowed_file filename" and "save_outcome env = Saved"
  shows "process_video_accept env (Some filename)
           (s\<lparr>processing_status := \<lparr>status = ''processing'', progress = p\<rparr>\<rparr>)
         = (Inr (video_path_of env filename),
            s\<lparr>files := insert (video_path_of env filename) (files s),
              processing_status := \<lparr>status = ''processing'', progress = 0\<rparr>\<rparr>) \<and>
         process_video_job env video_path s'
         = (if video_path \<in> files s' \<and> remove_raises env
            then (Crashed OSError,
                  s'\<lparr>current_video_data :=
                       (if success (pipeline_result_of env)
                        then stored_signals (result_signals (pipeline_result_of env))
                        else current_video_data s'),
                     processing_status := \<lparr>status = ''error'', progress = 100\<rparr>\<rparr>)
            else (Processed (pipeline_result_of env),
                  s'\<lparr>current_video_data :=
                       (if success (pipeline_result_of env)
                        then stored_signals (result_signals (pipeline_result_of env))
                        else current_video_data s'),
                     processing_status := \<lparr>status = ''completed'', progress = 100\<rparr>,
                     files := files s' - {video_path}\<rparr>)) \<and>
         process_video env (Some filename)
           (s\<lparr>processing_status := \<lparr>status = ''processing'', progress = p\<rparr>\<rparr>)
         = process_video_job env (video_path_of env filename)
             (s\<lparr>files := insert (video_path_of env filename) (files s),
                processing_status := \<lparr>status = ''processing'', progress = 0\<rparr>\<rparr>) \<and>
         fst (process_video env request (s\<lparr>processing_status := ps\<rparr>))
         = fst (process_video env request s)"
proof -
  have a: "process_video_accept env (Some filename)
           (s\<lparr>processing_status := \<lparr>status = ''processing'', progress = p\<rparr>\<rparr>)
         = (Inr (video_path_of env filename),
            s\<lparr>files := insert (video_path_of env filename) (files s),
              processing_status := \<lparr>status = ''processing'', progress = 0\<rparr>\<rparr>)"
    by (simp add: process_video_accept_saved[OF assms])
  have c: "process_video env (Some filename)
           (s\<lparr>processing_status := \<lparr>status = ''processing'', progress = p\<rparr>\<rparr>)
         = process_video_job env (video_path_of env filename)
             (s\<lparr>files := insert (video_path_of env filename) (files s),
                processing_status := \<lparr>status = ''processing'', progress = 0\<rparr>\<rparr>)"
    unfolding process_video_phases a by simp
  from a c show ?thesis
    by (simp only: process_video_job_eq[of env video_path s'] process_video_ignores_status
          simp_thms)
qed

lemma fallback_result:
  "pipeline_result_of fallback_env =
     Success [(''laneA'', 12), (''laneB'', 7), (''laneC'', 15), (''laneD'', 9)]
       [(''laneA'', \<lparr>count = 12, signal = ''Red'', time = 15, priority = None\<rparr>),
        (''laneB'', \<lparr>count = 7, signal = ''Red'', time = 15, priority = None\<rparr>),
        (''laneC'', \<lparr>count = 15, signal = ''Green'', time = 25, priority = None\<rparr>),
        (''laneD'', \<lparr>count = 9, signal = ''Red'', time = 15, priority = None\<rparr>)]
       0 ''Video processed in dummy mode (random data)''"
  by (simp add: pipeline_result_of_def fallback_env_def process_video_dummy_def
        calculate_signal_timing_def py_max_def dict_values_def keys_def count_of_def
        dict_get_def)

lemma fallback_published:
  "stored_signals (result_signals (pipeline_result_of fallback_env)) =
       [(''laneA'', \<lparr>count = JInt 12, signal = ''Red'', time = 15, priority = None\<rparr>),
        (''laneB'', \<lparr>count = JInt 7, signal = ''Red'', time = 15, priority = None\<rparr>),
        (''laneC'', \<lparr>count = JInt 15, signal = ''Green'', time = 25, priority = None\<rparr>),
        (''laneD'', \<lparr>count = JInt 9, signal = ''Red'', time = 15, priority = None\<rparr>)]"
  by (simp add: fallback_result stored_signals_def stored_def)

lemma fallback_paths:
  "video_path_of fallback_env ''clip.mp4'' = ''uploads/20240101_120000_clip.mp4''"
  "video_path_of fallback_env ''first.mp4'' = ''uploads/20240101_120000_first.mp4''"
  by (simp_all add: video_path_of_def fallback_env_def)

theorem submission_during_processing_witness:
  "''clip.mp4'' \<noteq> [] \<and> allowed_file ''clip.mp4'' \<and> save_outcome fallback_env = Saved \<and>
   process_video_accept fallback_env (Some ''clip.mp4'')
     (initial_state\<lparr>processing_status := \<lparr>status = ''processing'', progress = 40\<rparr>\<rparr>)
   = (Inr ''uploads/20240101_120000_clip.mp4'',
      initial_state\<lparr>files := {''uploads/20240101_120000_clip.mp4''},
        processing_status := \<lparr>status = ''processing'', progress = 0\<rparr>\<rparr>) \<and>
   process_video_job fallback_env ''uploads/20240101_120000_clip.mp4''
     (initial_state\<lparr>files := {''uploads/20240101_120000_clip.mp4''},
        processing_status := \<lparr>status = ''processing'', progress = 70\<rparr>\<rparr>)
   = (Processed (pipeline_result_of fallback_env),
      initial_state\<lparr>current_video_data :=
          stored_signals (result_signals (pipeline_result_of fallback_env)),
        processing_status := \<lparr>status = ''completed'', progress = 100\<rparr>\<rparr>) \<and>
   fst (process_video fallback_env (Some ''clip.mp4'')
          (initial_state\<lparr>processing_status := \<lparr>status = ''processing'', progress = 40\<rparr>\<rparr>))
   = fst (process_video fallback_env (Some ''clip.mp4'') initial_state)"
proof -
  have h1: "''clip.mp4'' \<noteq> []" by simp
  have h3: "save_outcome fallback_env = Saved" by (simp add: fallback_env_def)
  have nr: "\<not> remove_raises fallback_env" by (simp add: fallback_env_def)
  have sc: "success (pipeline_result_of fallback_env)" by (simp add: fallback_result)
  have fi: "files initial_state = {}" by (simp add: initial_state_def)
  note t = submission_during_processing[OF h1 allowed_clip h3, where s = initial_state and p = 40
        and video_path = "''uploads/20240101_120000_clip.mp4''"
        and s' = "initial_state\<lparr>files := {''uploads/20240101_120000_clip.mp4''},
                   processing_status := \<lparr>status = ''processing'', progress = 70\<rparr>\<rparr>"
        and request = "Some ''clip.mp4''"
        and ps = "\<lparr>status = ''processing'', progress = 40\<rparr>"]
  from t have c1: "process_video_accept fallback_env (Some ''clip.mp4'')
     (initial_state\<lparr>processing_status := \<lparr>status = ''processing'', progress = 40\<rparr>\<rparr>)
   = (Inr ''uploads/20240101_120000_clip.mp4'',
      initial_state\<lparr>files := {''uploads/20240101_120000_clip.mp4''},
        processing_status := \<lparr>status = ''processing'', progress = 0\<rparr>\<rparr>)"
    by (simp add: fallback_paths fi)
  from t[THEN conjunct2, THEN conjunct1]
  have c2: "process_video_job fallback_env ''uploads/20240101_120000_clip.mp4''
     (initial_state\<lparr>files := {''uploads/20240101_120000_clip.mp4''},
        processing_status := \<lparr>status = ''processing'', progress = 70\<rparr>\<rparr>)
   = (Processed (pipeline_result_of fallback_env),
      initial_state\<lparr>current_video_data :=
          stored_signals (result_signals (pipeline_result_of fallback_env)),
        processing_status := \<lparr>status = ''completed'', progress = 100\<rparr>\<rparr>)"
    by (simp add: nr sc initial_state_def)
  from t[THEN conjunct2, THEN conjunct2, THEN conjunct2]
  have c4: "fst (process_video fallback_env (Some ''clip.mp4'')
          (initial_state\<lparr>processing_status := \<lparr>status = ''processing'', progress = 40\<rparr>\<rparr>))
   = fst (process_video fallback_env (Some ''clip.mp4'') initial_state)" .
  from h1 allowed_clip h3 c1 c2 c4 show ?thesis by blast
qed

text \<open>
  A first submission is taken on and leaves the status \<^verbatim>\<open>processing\<close>; a second
  submission, in fallback mode, arrives before the first job has run. It is processed,
  not rejected: the signal state is replaced and the status is that of the second job,
  while the upload of the first job is still waiting.
\<close>

theorem submission_during_processing_counterexample:
  "process_video_accept fallback_env (Some ''first.mp4'') initial_state
   = (Inr ''uploads/20240101_120000_first.mp4'',
      \<lparr>current_video_data = initial_video_data,
       processing_status = \<lparr>status = ''processing'', progress = 0\<rparr>,
       files = {''uploads/20240101_120000_first.mp4''}\<rparr>) \<and>
   process_video fallback_env (Some ''clip.mp4'')
     \<lparr>current_video_data = initial_video_data,
      processing_status = \<lparr>status = ''processing'', progress = 0\<rparr>,
      files = {''uploads/20240101_120000_first.mp4''}\<rparr>
   = (Processed
        (Success [(''laneA'', 12), (''laneB'', 7), (''laneC'', 15), (''laneD'', 9)]
           [(''laneA'', \<lparr>count = 12, signal = ''Red'', time = 15, priority = None\<rparr>),
            (''laneB'', \<lparr>count = 7, signal = ''Red'', time = 15, priority = None\<rparr>),
            (''laneC'', \<lparr>count = 15, signal = ''Green'', time = 25, priority = None\<rparr>),
            (''laneD'', \<lparr>count = 9, signal = ''Red'', time = 15, priority = None\<rparr>)]
           0 ''Video processed in dummy mode (random data)''),
      \<lparr>current_video_data =
         [(''laneA'', \<lparr>count = JInt 12, signal = ''Red'', time = 15, priority = None\<rparr>),
          (''laneB'', \<lparr>count = JInt 7, signal = ''Red'', time = 15, priority = None\<rparr>),
          (''laneC'', \<lparr>count = JInt 15, signal = ''Green'', time = 25, priority = None\<rparr>),
          (''laneD'', \<lparr>count = JInt 9, signal = ''Red'', time = 15, priority = None\<rparr>)],
       processing_status = \<lparr>status = ''completed'', progress = 100\<rparr>,
       files = {''uploads/20240101_120000_first.mp4''}\<rparr>)"
proof -
  have h1: "''clip.mp4'' \<noteq> []" and h1': "''first.mp4'' \<noteq> []" by simp_all
  have h3: "save_outcome fallback_env = Saved" by (simp add: fallback_env_def)
  have nr: "\<not> remove_raises fallback_env" by (simp add: fallback_env_def)
  have a: "process_video_accept fallback_env (Some ''first.mp4'') initial_state
   = (Inr ''uploads/20240101_120000_first.mp4'',
      \<lparr>current_video_data = initial_video_data,
       processing_status = \<lparr>status = ''processing'', progress = 0\<rparr>,
       files = {''uploads/20240101_120000_first.mp4''}\<rparr>)"
    by (simp add: process_video_accept_saved[OF h1' allowed_first h3] fallback_paths
          initial_state_def)
  have b: "process_video fallback_env (Some ''clip.mp4'')
     \<lparr>current_video_data = initial_video_data,
      processing_status = \<lparr>status = ''processing'', progress = 0\<rparr>,
      files = {''uploads/20240101_120000_first.mp4''}\<rparr>
   = (Processed (pipeline_result_of fallback_env),
      \<lparr>current_video_data = stored_signals (result_signals (pipeline_result_of fallback_env)),
       processing_status = \<lparr>status = ''completed'', progress = 100\<rparr>,
       files = {''uploads/20240101_120000_first.mp4''}\<rparr>)"
    by (simp add: process_video_saved[OF h1 allowed_clip h3] nr fallback_paths Let_def
          fallback_result)
  show ?thesis unfolding a b by (simp add: fallback_published) (simp add: fallback_result)
qed

text \<open>
  Claim C3 at a failing input: the detector is available and the uploaded video cannot be
  opened. \<^verbatim>\<open>process_video_yolo\<close> returns an unsuccessful result, the signal state is left
  as it was, and the status is set to \<^verbatim>\<open>completed\<close> with progress 100, not to
  \<^verbatim>\<open>error\<close>.
\<close>

theorem unopenable_video_reported_completed:
  "process_video detector_env (Some ''clip.mp4'') initial_state
   = (Processed (Failure CouldNotOpen
                   ''Error processing video with YOLO, falling back to dummy mode''),
      initial_state\<lparr>processing_status := \<lparr>status = ''completed'', progress = 100\<rparr>\<rparr>)"
proof -
  have h1: "''clip.mp4'' \<noteq> []" by simp
  have h3: "save_outcome detector_env = Saved" by (simp add: detector_env_def fallback_env_def)
  have r: "pipeline_result_of detector_env
           = Failure CouldNotOpen ''Error processing video with YOLO, falling back to dummy mode''"
    by (simp add: pipeline_result_of_def detector_env_def fallback_env_def process_video_yolo_def
          unopenable_video_def yolo_failed_def)
  have h4: "\<not> remove_raises detector_env" by (simp add: detector_env_def fallback_env_def)
  have "process_video detector_env (Some ''clip.mp4'') initial_state
        = (Processed (pipeline_result_of detector_env),
           initial_state\<lparr>current_video_data :=
               (if success (pipeline_result_of detector_env)
                then stored_signals (result_signals (pipeline_result_of detector_env))
                else current_video_data initial_state),
             processing_status := \<lparr>status = ''completed'', progress = 100\<rparr>,
             files := files initial_state - {video_path_of detector_env ''clip.mp4''}\<rparr>)"
    using h4 by (simp add: process_video_saved[OF h1 allowed_clip h3] Let_def)
  then show ?thesis
    by (simp add: r initial_state_def)
qed

text \<open>
  Claim C7 at two failing inputs: \<^verbatim>\<open>os.remove\<close> raises, or \<^verbatim>\<open>file.save\<close> raises
  after it has created the file. Both requests end in the exception handler, which sets
  the status to \<^verbatim>\<open>error\<close> and removes nothing: the upload is still on disk.
\<close>

theorem upload_kept_after_exception:
  "process_video remove_fails_env (Some ''clip.mp4'') initial_state
   = (Crashed OSError,
      \<lparr>current_video_data = stored_signals (result_signals (pipeline_result_of fallback_env)),
       processing_status = \<lparr>status = ''error'', progress = 100\<rparr>,
       files = {''uploads/20240101_120000_clip.mp4''}\<rparr>) \<and>
   process_video (fallback_env\<lparr>save_outcome := SaveRaises True\<rparr>) (Some ''clip.mp4'')
     initial_state
   = (Crashed OSError,
      initial_state\<lparr>processing_status := \<lparr>status = ''error'', progress = 0\<rparr>,
        files := {''uploads/20240101_120000_clip.mp4''}\<rparr>)"
proof -
  have h1: "''clip.mp4'' \<noteq> []" by simp
  have h3: "save_outcome remove_fails_env = Saved"
    by (simp add: remove_fails_env_def fallback_env_def)
  have h4: "save_outcome (fallback_env\<lparr>save_outcome := SaveRaises True\<rparr>) = SaveRaises True"
    by simp
  have r: "pipeline_result_of remove_fails_env = pipeline_result_of fallback_env"
    by (simp add: pipeline_result_of_def remove_fails_env_def)
  have h5: "remove_raises remove_fails_env" by (simp add: remove_fails_env_def)
  have vp: "video_path_of remove_fails_env ''clip.mp4'' = ''uploads/20240101_120000_clip.mp4''"
    by (simp add: video_path_of_def remove_fails_env_def fallback_env_def)
  have "process_video remove_fails_env (Some ''clip.mp4'') initial_state
        = (Crashed OSError,
           initial_state\<lparr>current_video_data :=
               (if success (pipeline_result_of remove_fails_env)
                then stored_signals (result_signals (pipeline_result_of remove_fails_env))
                else current_video_data initial_state),
             files := insert (video_path_of remove_fails_env ''clip.mp4'') (files initial_state),
             processing_status := \<lparr>status = ''error'', progress = 100\<rparr>\<rparr>)"
    using h5 by (simp add: process_video_saved[OF h1 allowed_clip h3] Let_def)
  then have a: "process_video remove_fails_env (Some ''clip.mp4'') initial_state
   = (Crashed OSError,
      \<lparr>current_video_data = stored_signals (result_signals (pipeline_result_of fallback_env)),
       processing_status = \<lparr>status = ''error'', progress = 100\<rparr>,
       files = {''uploads/20240101_120000_clip.mp4''}\<rparr>)"
    by (simp add: r vp fallback_result initial_state_def)
  have vp': "video_path_of (fallback_env\<lparr>save_outcome := SaveRaises True\<rparr>) ''clip.mp4''
             = ''uploads/20240101_120000_clip.mp4''"
    by (simp add: video_path_of_def fallback_env_def)
  have b: "process_video (fallback_env\<lparr>save_outcome := SaveRaises True\<rparr>) (Some ''clip.mp4'')
     initial_state
   = (Crashed OSError,
      initial_state\<lparr>processing_status := \<lparr>status = ''error'', progress = 0\<rparr>,
        files := {''uploads/20240101_120000_clip.mp4''}\<rparr>)"
    unfolding process_video_save_raises[OF h1 allowed_clip h4] vp'
    by (simp add: initial_state_def)
  from a b show ?thesis ..
qed

subsection \<open>The lanes of every reachable state\<close>

text \<open>
  Every reachable state holds exactly the lanes A, B, C, D, in this order, so the
  hypotheses on the lanes in the properties of \<^verbatim>\<open>simulate_traffic\<close> above hold in every
  reachable state. The stored counts are integers after a job has published and after a
  reset, but not in every reachable state: the state with \<^verbatim>\<open>None\<close> as lane A's count is
  reachable, and so is a state whose status is \<^verbatim>\<open>processing\<close>.
\<close>

lemma timing_keys:
  assumes d: "distinct (keys vc)" and r: "calculate_signal_timing vc = Inr signals"
  shows "keys signals = keys vc"
proof (cases vc)
  case Nil
  with r show ?thesis by (simp add: timing_empty)
next
  case (Cons p rest)
  obtain k0 c0 where "p = (k0, c0)" by (cases p)
  with Cons have ne: "vc = (k0, c0) # rest" by simp
  from r show ?thesis
    unfolding calculate_signal_timing_closed[OF d ne] by (auto simp: keys_assignment)
qed

lemma keys_increment: "lane \<in> set (keys vc) \<Longrightarrow> keys (increment vc lane) = keys vc"
  by (simp add: increment_def keys_dict_set_present)

lemma keys_count_box:
  "keys (vehicle_counts st) = app_lanes \<Longrightarrow> keys (vehicle_counts (count_box fr b st)) = app_lanes"
  by (simp add: count_box_def Let_def keys_increment app_lanes_def)

lemma keys_fold_count_box:
  "keys (vehicle_counts st) = app_lanes \<Longrightarrow>
   keys (vehicle_counts (fold (count_box fr) bs st)) = app_lanes"
  by (induction bs arbitrary: st) (simp_all add: keys_count_box)

lemma keys_process_frames:
  "keys (vehicle_counts st) = app_lanes \<Longrightarrow>
   keys (vehicle_counts (snd (process_frames n frs st))) = app_lanes"
proof (induction frs arbitrary: st)
  case Nil
  then show ?case by simp
next
  case (Cons fr frs)
  let ?st2 = "st\<lparr>frame_count := frame_count st + 1,
                  progress_global := progress_value fr\<rparr>"
  let ?st3 = "fold (count_box fr) (boxes fr) ?st2"
  from Cons.prems have "keys (vehicle_counts ?st2) = app_lanes" by simp
  then have k3: "keys (vehicle_counts ?st3) = app_lanes" by (rule keys_fold_count_box)
  then have "keys (vehicle_counts (snd (process_frames n frs ?st3))) = app_lanes"
    by (rule Cons.IH)
  with k3 Cons.prems show ?case
    by (simp add: Let_def split: option.split)
qed

lemma keys_dummy_result:
  "success (fst (process_video_dummy rnd)) \<Longrightarrow>
   keys (result_signals (fst (process_video_dummy rnd))) = app_lanes"
proof -
  obtain a b c d where rnd: "rnd = (a, b, c, d)" by (cases rnd)
  let ?vc = "[(''laneA'', a), (''laneB'', b), (''laneC'', c), (''laneD'', d)]"
  have dk: "distinct (keys ?vc)" by (simp add: keys_def)
  show "success (fst (process_video_dummy rnd)) \<Longrightarrow>
   keys (result_signals (fst (process_video_dummy rnd))) = app_lanes"
  proof (cases "calculate_signal_timing ?vc")
    case (Inl e)
    assume "success (fst (process_video_dummy rnd))"
    with Inl show ?thesis by (simp add: process_video_dummy_def rnd Let_def)
  next
    case (Inr signals)
    from timing_keys[OF dk Inr] have "keys signals = app_lanes"
      by (simp add: keys_def app_lanes_def)
    with Inr show ?thesis by (simp add: process_video_dummy_def rnd Let_def)
  qed
qed

lemma keys_yolo_result:
  assumes "success (fst (process_video_yolo ya rnd src p))"
  shows "keys (result_signals (fst (process_video_yolo ya rnd src p))) = app_lanes"
proof (cases "ya \<and> model_loads src \<and> opens src")
  case False
  with assms show ?thesis
    by (auto simp: process_video_yolo_def yolo_failed_def keys_dummy_result split: if_splits)
next
  case True
  let ?st0 = "\<lparr>frame_count = 0,
                vehicle_counts = [(''laneA'', 0), (''laneB'', 0), (''laneC'', 0), (''laneD'', 0)],
                frame_width_local = None,
                progress_global = p\<rparr>"
  obtain e st where pf: "process_frames (total_frames src) (frames src) ?st0 = (e, st)"
    by (cases "process_frames (total_frames src) (frames src) ?st0")
  have "keys (vehicle_counts ?st0) = app_lanes" by (simp add: keys_def app_lanes_def)
  from keys_process_frames[OF this, of "total_frames src" "frames src"] pf
  have kst: "keys (vehicle_counts st) = app_lanes" by simp
  then have dst: "distinct (keys (vehicle_counts st))" by (simp add: app_lanes_def)
  show ?thesis
  proof (cases e)
    case (Some x)
    with assms True pf show ?thesis by (simp add: process_video_yolo_def yolo_failed_def)
  next
    case None
    show ?thesis
    proof (cases "calculate_signal_timing (vehicle_counts st)")
      case (Inl x)
      with assms True pf None show ?thesis by (simp add: process_video_yolo_def yolo_failed_def)
    next
      case (Inr signals)
      from timing_keys[OF dst Inr] kst have "keys signals = app_lanes" by simp
      with True pf None Inr show ?thesis by (simp add: process_video_yolo_def)
    qed
  qed
qed

lemma keys_pipeline_result:
  "success (pipeline_result_of env) \<Longrightarrow>
   keys (stored_signals (result_signals (pipeline_result_of env))) = app_lanes"
  unfolding pipeline_result_of_def keys_stored_signals
  by (cases "YOLO_AVAILABLE env") (simp_all add: keys_yolo_result keys_dummy_result)

lemma job_keeps_lanes:
  assumes "keys (current_video_data s) = app_lanes"
  shows "keys (current_video_data (snd (process_video_job env video_path s))) = app_lanes"
  using assms by (simp add: process_video_job_eq keys_pipeline_result)

lemma accept_keeps_lanes:
  assumes "keys (current_video_data s) = app_lanes"
  shows "keys (current_video_data (snd (process_video_accept env request s))) = app_lanes"
  using assms
  by (simp add: process_video_accept_def process_video_except_def Let_def
        split: option.split save_result.split)

lemma process_video_keeps_lanes:
  assumes "keys (current_video_data s) = app_lanes"
  shows "keys (current_video_data (snd (process_video env request s))) = app_lanes"
proof (cases "process_video_accept env request s")
  case (Pair r s')
  from accept_keeps_lanes[OF assms, of env request] Pair
  have k: "keys (current_video_data s') = app_lanes" by simp
  show ?thesis
  proof (cases r)
    case (Inl response)
    with Pair k show ?thesis by (simp add: process_video_phases)
  next
    case (Inr video_path)
    with Pair job_keeps_lanes[OF k, of env video_path] show ?thesis
      by (simp add: process_video_phases)
  qed
qed

lemma simulate_keeps_lanes:
  assumes "keys (current_video_data s) = app_lanes"
  shows "keys (current_video_data (snd (simulate_traffic rnd body s))) = app_lanes"
proof (cases body)
  case None
  with assms show ?thesis by (simp add: simulate_traffic_def)
next
  case (Some data)
  define lane where "lane = (case lane_field data of None \<Rightarrow> ''A'' | Some l \<Rightarrow> l)"
  define cnt where "cnt = (case count_field data of None \<Rightarrow> JInt rnd | Some c \<Rightarrow> c)"
  have same: "simulate_traffic rnd (Some data) s
              = simulate_traffic rnd (Some \<lparr>lane_field = Some lane, count_field = Some cnt\<rparr>) s"
    by (simp add: simulate_traffic_def lane_def cnt_def)
  from assms have d: "distinct (keys (current_video_data s))" by (simp add: app_lanes_def)
  show ?thesis
  proof (cases "''lane'' @ lane \<in> set (keys (current_video_data s))")
    case True
    let ?vc = "dict_set (counts_of (current_video_data s)) (''lane'' @ lane) cnt"
    have kvc: "keys ?vc = keys (current_video_data s)"
      using d True by (simp add: keys_dict_set_present keys_counts_of)
    from simulate_valid_lane[OF d True, of rnd cnt] obtain entry where
      run: "simulate_traffic rnd (Some \<lparr>lane_field = Some lane, count_field = Some cnt\<rparr>) s
           = (case calculate_signal_timing_json ?vc of
                Inl e \<Rightarrow>
                  (SimulateCrashed e,
                   s\<lparr>current_video_data :=
                       dict_set (current_video_data s) (''lane'' @ lane) (entry\<lparr>count := cnt\<rparr>)\<rparr>)
              | Inr signals \<Rightarrow> (Updated lane cnt signals, s\<lparr>current_video_data := signals\<rparr>))"
      by blast
    show ?thesis
    proof (cases "calculate_signal_timing_json ?vc")
      case (Inl e)
      with run assms True show ?thesis
        unfolding Some same by (simp add: keys_dict_set_present)
    next
      case (Inr signals)
      from kvc d have "distinct (keys ?vc)" by simp
      from timing_json_keys[OF this Inr] kvc assms have "keys signals = app_lanes" by simp
      with run Inr show ?thesis unfolding Some same by simp
    qed
  next
    case False
    then have "dict_get (current_video_data s) (''lane'' @ lane) = None"
      by (simp add: dict_get_none_iff)
    with assms show ?thesis
      unfolding Some same by (simp add: simulate_traffic_def Let_def)
  qed
qed

lemma reachable_lanes:
  "reachable s \<Longrightarrow> keys (current_video_data s) = app_lanes"
proof (induction rule: reachable.induct)
  case start
  show ?case by (simp add: initial_state_def initial_video_data_def keys_def app_lanes_def)
next
  case (upload s env request)
  then show ?case by (simp add: process_video_keeps_lanes)
next
  case (accept s env request)
  then show ?case by (simp add: accept_keeps_lanes)
next
  case (job s env video_path)
  then show ?case by (simp add: job_keeps_lanes)
next
  case (simulate s rnd body)
  then show ?case by (simp add: simulate_keeps_lanes)
next
  case (reset s)
  show ?case by (simp add: reset_signals_def initial_video_data_def keys_def app_lanes_def)
qed

lemma reachable_state_is_dict_over_lanes:
  assumes "reachable s"
  shows "distinct (keys (current_video_data s))"
    and "set (keys (current_video_data s)) = {''laneA'', ''laneB'', ''laneC'', ''laneD''}"
  using reachable_lanes[OF assms] by (simp_all add: app_lanes_def)

lemma polluted_state_reachable:
  "reachable (initial_state\<lparr>current_video_data :=
        [(''laneA'', \<lparr>count = JNull, signal = ''Red'', time = 15, priority = None\<rparr>),
         (''laneB'', \<lparr>count = JInt 0, signal = ''Red'', time = 15, priority = None\<rparr>),
         (''laneC'', \<lparr>count = JInt 0, signal = ''Red'', time = 15, priority = None\<rparr>),
         (''laneD'', \<lparr>count = JInt 0, signal = ''Red'', time = 15, priority = None\<rparr>)]\<rparr>)"
proof -
  have "simulate_traffic 7 (Some \<lparr>lane_field = Some ''A'', count_field = Some JNull\<rparr>) initial_state
   = (SimulateCrashed TypeError,
      initial_state\<lparr>current_video_data :=
        [(''laneA'', \<lparr>count = JNull, signal = ''Red'', time = 15, priority = None\<rparr>),
         (''laneB'', \<lparr>count = JInt 0, signal = ''Red'', time = 15, priority = None\<rparr>),
         (''laneC'', \<lparr>count = JInt 0, signal = ''Red'', time = 15, priority = None\<rparr>),
         (''laneD'', \<lparr>count = JInt 0, signal = ''Red'', time = 15, priority = None\<rparr>)]\<rparr>)"
    by (simp add: simulate_traffic_def initial_state_def initial_video_data_def dict_get_def
        counts_of_def calculate_signal_timing_json_def py_max_json_def dict_values_def keys_def
        py_gt_null Let_def)
  with reachable.simulate[OF reachable.start,
        of 7 "Some \<lparr>lane_field = Some ''A'', count_field = Some JNull\<rparr>"]
  show ?thesis by simp
qed

lemma processing_state_reachable:
  "reachable (initial_state\<lparr>files := {''uploads/20240101_120000_first.mp4''},
                processing_status := \<lparr>status = ''processing'', progress = 0\<rparr>\<rparr>)"
proof -
  have h1: "''first.mp4'' \<noteq> []" by simp
  have h3: "save_outcome fallback_env = Saved" by (simp add: fallback_env_def)
  have "snd (process_video_accept fallback_env (Some ''first.mp4'') initial_state)
        = initial_state\<lparr>files := {''uploads/20240101_120000_first.mp4''},
                processing_status := \<lparr>status = ''processing'', progress = 0\<rparr>\<rparr>"
    by (simp add: process_video_accept_saved[OF h1 allowed_first h3] fallback_paths
          initial_state_def)
  with reachable.accept[OF reachable.start, of fallback_env "Some ''first.mp4''"]
  show ?thesis by simp
qed

end
